theory Spec2Isabelle
  imports Main
begin

section \<open>Strings and exceptions\<close>

text \<open>
  A Python \<open>str\<close> is a sequence of Unicode code points; it is modelled as a list of
  code points, so that the whitespace classes of \<open>str.strip\<close>, \<open>str.splitlines\<close> and
  the regular expression class \<open>\<backslash>s\<close> are the ones Python uses. \<open>ustr_of\<close> writes an
  ASCII literal.
\<close>

type_synonym ustr = "nat list"

definition ustr_of :: "string \<Rightarrow> ustr" where
  "ustr_of cs = map of_char cs"

text \<open>An exception value: the name of its class and \<open>str(e)\<close>.\<close>

record py_exception =
  exc_class :: ustr
  exc_msg :: ustr

text \<open>\<open>s.startswith(p)\<close> and the substring test \<open>needle in s\<close>.\<close>

fun startswith :: "ustr \<Rightarrow> ustr \<Rightarrow> bool" where
  "startswith s [] = True"
| "startswith [] (p # ps) = False"
| "startswith (c # cs) (p # ps) = (c = p \<and> startswith cs ps)"

fun str_contains :: "ustr \<Rightarrow> ustr \<Rightarrow> bool" where
  "str_contains needle [] = (needle = [])"
| "str_contains needle (c # cs) = (startswith (c # cs) needle \<or> str_contains needle cs)"

text \<open>\<open>sep.join(parts)\<close>.\<close>

fun join :: "ustr \<Rightarrow> ustr list \<Rightarrow> ustr" where
  "join sep [] = []"
| "join sep [x] = x"
| "join sep (x # y # ys) = x @ sep @ join sep (y # ys)"

section \<open>The HTML sanitizer (\<open>RssParser._clean_html\<close>)\<close>

subsection \<open>The emphasis pre-pass\<close>

text \<open>
  \<open>re.sub(r'<em>([^<]*)</em>', r'\<backslash>1', html_content)\<close>: scanning from the left, a match
  at the current position is \<open><em>\<close>, the longest run of characters other than \<open><\<close>
  (code point 60), and \<open></em>\<close>; it is replaced by the run, and the scan goes on behind
  the match. Where there is no match the character is kept.
\<close>

definition em_open :: ustr where
  "em_open = ustr_of ''<em>''"

definition em_close :: ustr where
  "em_close = ustr_of ''</em>''"

definition match_em :: "ustr \<Rightarrow> (ustr \<times> ustr) option" where
  "match_em s =
     (if startswith s em_open then
        (let body = drop (length em_open) s;
             inner = takeWhile (\<lambda>c. c \<noteq> 60) body;
             after = dropWhile (\<lambda>c. c \<noteq> 60) body
         in if startswith after em_close
            then Some (inner, drop (length em_close) after)
            else None)
      else None)"

lemma match_em_shorter: "match_em s = Some (inner, rest) \<Longrightarrow> length rest < length s"
proof -
  assume m: "match_em s = Some (inner, rest)"
  have open_len: "length em_open = 4" and close_len: "length em_close = 5"
    by (simp_all add: em_open_def em_close_def ustr_of_def)
  from m have st: "startswith s em_open"
    by (simp add: match_em_def split: if_splits)
  have "s \<noteq> []"
  proof
    assume "s = []"
    with st show False by (simp add: em_open_def ustr_of_def)
  qed
  moreover from m have "rest = drop (length em_close) (dropWhile (\<lambda>c. c \<noteq> 60) (drop (length em_open) s))"
    by (simp add: match_em_def Let_def split: if_splits)
  then have "length rest \<le> length s - 4"
    using length_dropWhile_le [of "\<lambda>c. c \<noteq> 60" "drop 4 s"] by (simp add: open_len)
  ultimately show ?thesis by (cases s) auto
qed

function re_sub_em :: "ustr \<Rightarrow> ustr" where
  "re_sub_em [] = []"
| "re_sub_em (c # cs) =
     (case match_em (c # cs) of
        Some (inner, rest) \<Rightarrow> inner @ re_sub_em rest
      | None \<Rightarrow> c # re_sub_em cs)"
  by pat_completeness auto
termination
  by (relation "measure length") (auto dest: match_em_shorter)

subsection \<open>Whitespace and lines\<close>

text \<open>
  The code points for which \<open>str.isspace\<close> holds; \<open>str.strip()\<close> and the class
  \<open>\<backslash>s\<close> of a \<open>str\<close> pattern use the same set.
\<close>

definition is_space :: "nat \<Rightarrow> bool" where
  "is_space c =
     ((9 \<le> c \<and> c \<le> 13) \<or> (28 \<le> c \<and> c \<le> 32) \<or> c = 133 \<or> c = 160 \<or> c = 5760
      \<or> (8192 \<le> c \<and> c \<le> 8202) \<or> c = 8232 \<or> c = 8233 \<or> c = 8239 \<or> c = 8287
      \<or> c = 12288)"

text \<open>The line boundaries of \<open>str.splitlines\<close>; \<open>\<backslash>r\<backslash>n\<close> is one boundary.\<close>

definition is_linebreak :: "nat \<Rightarrow> bool" where
  "is_linebreak c =
     (c = 10 \<or> c = 11 \<or> c = 12 \<or> c = 13 \<or> c = 28 \<or> c = 29 \<or> c = 30 \<or> c = 133
      \<or> c = 8232 \<or> c = 8233)"

fun splitlines_from :: "ustr \<Rightarrow> ustr \<Rightarrow> ustr list" where
  "splitlines_from cur [] = (if cur = [] then [] else [cur])"
| "splitlines_from cur (c # cs) =
     (if is_linebreak c then
        (case cs of
           d # ds \<Rightarrow> if c = 13 \<and> d = 10 then cur # splitlines_from [] ds
                     else cur # splitlines_from [] cs
         | [] \<Rightarrow> cur # splitlines_from [] cs)
      else splitlines_from (cur @ [c]) cs)"

definition splitlines :: "ustr \<Rightarrow> ustr list" where
  "splitlines s = splitlines_from [] s"

definition py_strip :: "ustr \<Rightarrow> ustr" where
  "py_strip s = rev (dropWhile is_space (rev (dropWhile is_space s)))"

text \<open>\<open>re.sub(r'\<backslash>s+', ' ', line)\<close>: every maximal run of whitespace becomes one space.\<close>

function collapse_ws :: "ustr \<Rightarrow> ustr" where
  "collapse_ws [] = []"
| "collapse_ws (c # cs) =
     (if is_space c then 32 # collapse_ws (dropWhile is_space cs)
      else c # collapse_ws cs)"
  by pat_completeness auto
termination
  by (relation "measure length") (auto simp: less_Suc_eq_le length_dropWhile_le)

text \<open>
  The loop over \<open>raw_text.splitlines()\<close>: a line that is empty after stripping is
  dropped, any other is stripped, collapsed and appended to \<open>processed_lines\<close>.
\<close>

fun process_lines :: "ustr list \<Rightarrow> ustr list \<Rightarrow> ustr list" where
  "process_lines [] processed_lines = processed_lines"
| "process_lines (line # rest) processed_lines =
     (let stripped_line = py_strip line
      in if stripped_line \<noteq> []
         then process_lines rest (processed_lines @ [collapse_ws stripped_line])
         else process_lines rest processed_lines)"

definition paragraph_sep :: ustr where
  "paragraph_sep = [10, 10]"

definition normalize_text :: "ustr \<Rightarrow> ustr" where
  "normalize_text raw_text = join paragraph_sep (process_lines (splitlines raw_text) [])"

subsection \<open>The sanitizer\<close>

text \<open>
  The HTML parser is a library: \<open>get_text\<close> stands for building the soup with
  \<open>html.parser\<close>, unwrapping the remaining \<open>em\<close> tags and
  \<open>soup.get_text(separator='\<backslash>n', strip=True)\<close>; it returns the raw text or raises.
  The pre-pass assigns its result to \<open>html_content\<close>, the variable the handler
  returns.
\<close>

definition clean_html :: "(ustr \<Rightarrow> py_exception + ustr) \<Rightarrow> ustr \<Rightarrow> ustr" where
  "clean_html get_text html_content =
     (if html_content = [] then []
      else
        (let html_content = re_sub_em html_content
         in case get_text html_content of
              Inr raw_text \<Rightarrow> normalize_text raw_text
            | Inl e \<Rightarrow> html_content))"

section \<open>Timestamps (\<open>RssParser._convert_to_local_time\<close>)\<close>

text \<open>
  A \<open>datetime\<close> is its wall clock, counted in microseconds from 0001-01-01T00:00:00,
  and its \<open>tzinfo\<close>: \<open>None\<close> when naive, otherwise the UTC offset in microseconds.
  The library keeps every datetime within the years 1 to 9999, that is below
  \<open>max_ordinal\<close> days: the constructor refuses other fields with a \<open>ValueError\<close>, and
  arithmetic that leaves the range raises \<open>OverflowError\<close>.
\<close>

record datetime =
  wall_clock :: int
  tzinfo :: "int option"

definition max_ordinal :: int where
  "max_ordinal = 3652059"

definition in_range :: "int \<Rightarrow> bool" where
  "in_range w = (0 \<le> w \<and> w < max_ordinal * 86400000000)"

definition overflow_error :: py_exception where
  "overflow_error =
     \<lparr>exc_class = ustr_of ''OverflowError'', exc_msg = ustr_of ''date value out of range''\<rparr>"

definition value_error :: "ustr \<Rightarrow> py_exception" where
  "value_error msg = \<lparr>exc_class = ustr_of ''ValueError'', exc_msg = msg\<rparr>"

text \<open>The decimal digits of a number, for the message of a year out of range.\<close>

function digits_of :: "nat \<Rightarrow> ustr" where
  "digits_of n = (if n < 10 then [48 + n] else digits_of (n div 10) @ [48 + n mod 10])"
  by pat_completeness auto
termination
  by (relation "measure id") auto

declare digits_of.simps [simp del]

definition str_of_int :: "int \<Rightarrow> ustr" where
  "str_of_int i = (if i < 0 then 45 # digits_of (nat (- i)) else digits_of (nat i))"

text \<open>The proleptic Gregorian calendar of the library.\<close>

definition is_leap :: "int \<Rightarrow> bool" where
  "is_leap year = (year mod 4 = 0 \<and> (year mod 100 \<noteq> 0 \<or> year mod 400 = 0))"

definition days_before_year :: "int \<Rightarrow> int" where
  "days_before_year year =
     (let y = year - 1 in y * 365 + y div 4 - y div 100 + y div 400)"

definition days_in_month :: "int \<Rightarrow> int \<Rightarrow> int" where
  "days_in_month year month =
     (if month = 2 then (if is_leap year then 29 else 28)
      else if month = 4 \<or> month = 6 \<or> month = 9 \<or> month = 11 then 30
      else 31)"

definition days_before_month :: "int \<Rightarrow> int \<Rightarrow> int" where
  "days_before_month year month =
     (if month = 1 then 0 else if month = 2 then 31 else
        (if month = 3 then 59 else if month = 4 then 90 else if month = 5 then 120
         else if month = 6 then 151 else if month = 7 then 181 else if month = 8 then 212
         else if month = 9 then 243 else if month = 10 then 273 else if month = 11 then 304
         else 334)
        + (if is_leap year then 1 else 0))"

definition ymd2ord :: "int \<Rightarrow> int \<Rightarrow> int \<Rightarrow> int" where
  "ymd2ord year month day = days_before_year year + days_before_month year month + day"

text \<open>The naive datetime with the given fields.\<close>

definition datetime_value :: "int \<Rightarrow> int \<Rightarrow> int \<Rightarrow> int \<Rightarrow> int \<Rightarrow> int \<Rightarrow> datetime" where
  "datetime_value year month day hour minute second =
     \<lparr>wall_clock =
        (((ymd2ord year month day - 1) * 24 + hour) * 60 + minute) * 60000000
        + second * 1000000,
      tzinfo = None\<rparr>"

text \<open>
  The constructor \<open>datetime(year, month, day, hour, minute, second)\<close>: it checks the
  date fields, then the time fields, and raises \<open>ValueError\<close> at the first that is out
  of range.
\<close>

definition datetime_new ::
  "int \<Rightarrow> int \<Rightarrow> int \<Rightarrow> int \<Rightarrow> int \<Rightarrow> int \<Rightarrow> py_exception + datetime" where
  "datetime_new year month day hour minute second =
     (if year < 1 \<or> 9999 < year
      then Inl (value_error (ustr_of ''year '' @ str_of_int year @ ustr_of '' is out of range''))
      else if month < 1 \<or> 12 < month
      then Inl (value_error (ustr_of ''month must be in 1..12''))
      else if day < 1 \<or> days_in_month year month < day
      then Inl (value_error (ustr_of ''day is out of range for month''))
      else if hour < 0 \<or> 23 < hour
      then Inl (value_error (ustr_of ''hour must be in 0..23''))
      else if minute < 0 \<or> 59 < minute
      then Inl (value_error (ustr_of ''minute must be in 0..59''))
      else if second < 0 \<or> 59 < second
      then Inl (value_error (ustr_of ''second must be in 0..59''))
      else Inr (datetime_value year month day hour minute second))"

text \<open>\<open>dt.replace(tzinfo=tz)\<close> keeps the wall clock.\<close>

definition replace_tzinfo :: "datetime \<Rightarrow> int option \<Rightarrow> datetime" where
  "replace_tzinfo dt tz = dt\<lparr>tzinfo := tz\<rparr>"

text \<open>
  \<open>dt.astimezone(tz)\<close> for an aware \<open>dt\<close> and a fixed-offset \<open>tz\<close> that is another
  object than \<open>dt.tzinfo\<close>: the library subtracts the offset of \<open>dt\<close>, which gives the
  wall clock of UTC, then adds the offset of \<open>tz\<close>; either step raises
  \<open>OverflowError\<close> when it leaves the range. (For a naive \<open>dt\<close> the library reads the
  wall clock as system local time; the source never calls it on one.)
\<close>

definition astimezone :: "int \<Rightarrow> datetime \<Rightarrow> int \<Rightarrow> py_exception + datetime" where
  "astimezone system_offset dt tz =
     (let offset = (case tzinfo dt of Some z \<Rightarrow> z | None \<Rightarrow> system_offset);
          utc = wall_clock dt - offset
      in if \<not> in_range utc then Inl overflow_error
         else if \<not> in_range (utc + tz) then Inl overflow_error
         else Inr \<lparr>wall_clock = utc + tz, tzinfo = Some tz\<rparr>)"

text \<open>The instant of an aware datetime, in microseconds of UTC.\<close>

definition utc_instant :: "datetime \<Rightarrow> int" where
  "utc_instant dt = wall_clock dt - (case tzinfo dt of Some z \<Rightarrow> z | None \<Rightarrow> 0)"

text \<open>
  \<open>local_tz\<close> is \<open>datetime.now().astimezone().tzinfo\<close>, a new object on every call
  that holds the fixed offset of the process's zone; \<open>pytz.UTC\<close> is the offset 0. An
  \<open>OverflowError\<close> of the conversion leaves the function.
\<close>

definition convert_to_local_time ::
  "int \<Rightarrow> datetime option \<Rightarrow> py_exception + datetime option" where
  "convert_to_local_time local_tz dt_opt =
     (case dt_opt of
        None \<Rightarrow> Inr None
      | Some dt \<Rightarrow>
          (if tzinfo dt \<noteq> None then
             (case astimezone local_tz dt local_tz of
                Inl e \<Rightarrow> Inl e
              | Inr local_dt \<Rightarrow> Inr (Some local_dt))
           else
             (let utc_dt = replace_tzinfo dt (Some 0)
              in case astimezone local_tz utc_dt local_tz of
                   Inl e \<Rightarrow> Inl e
                 | Inr local_dt \<Rightarrow> Inr (Some local_dt))))"

section \<open>Collaborators\<close>

text \<open>The first six fields of a \<open>time.struct_time\<close>, which is all the source reads.\<close>

record struct_time =
  tm_year :: int
  tm_mon :: int
  tm_mday :: int
  tm_hour :: int
  tm_min :: int
  tm_sec :: int

text \<open>
  A raw entry of the feed parser. Every attribute may be missing (\<open>None\<close>);
  \<open>entry_content\<close> lists the \<open>value\<close>s of \<open>entry.content\<close>.
\<close>

record raw_entry =
  entry_id :: "ustr option"
  entry_link :: "ustr option"
  entry_title :: "ustr option"
  entry_summary :: "ustr option"
  entry_content :: "ustr list option"
  published_parsed :: "struct_time option"
  updated_parsed :: "struct_time option"

record feed_meta =
  meta_title :: "ustr option"
  meta_description :: "ustr option"
  meta_link :: "ustr option"

text \<open>
  What \<open>feedparser.parse\<close> returns: \<open>feed_entries\<close> is \<open>None\<close> when the object has
  no \<open>entries\<close> attribute, \<open>feed_meta\<close> is \<open>None\<close> when it has no \<open>feed\<close> attribute.
\<close>

record parsed_feed =
  feed_entries :: "raw_entry list option"
  feed_meta :: "feed_meta option"

text \<open>An item of the chat-source parser: a dictionary read with \<open>entry.get\<close>.\<close>

record wechat_entry =
  w_title :: "ustr option"
  w_link :: "ustr option"
  w_content :: "ustr option"
  w_source :: "ustr option"
  w_published :: "ustr option"
  w_article_id :: "ustr option"

record wechat_result =
  w_status :: ustr
  w_items :: "wechat_entry list"
  w_error :: "ustr option"

text \<open>The arguments of one \<open>add_news_article\<close> call.\<close>

record stored_article =
  sa_article_id :: ustr
  sa_title :: ustr
  sa_link :: "ustr option"
  sa_source :: ustr
  sa_published_date :: "ustr option"
  sa_content_hash :: "ustr option"

text \<open>
  Modelled from the spec: the collaborators of the pipeline, whose code is not in
  \<open>rss_parser.py\<close> (the article store \<open>NewsDBManager\<close>, the chat-source parser
  \<open>WeChatParser\<close>, \<open>load_config\<close>) or is a library (\<open>feedparser\<close>, \<open>hashlib\<close>,
  \<open>BeautifulSoup\<close>, \<open>datetime\<close>). Following the spec's interfaces, canonicalization and
  the two task-history queries are pure functions, the upsert succeeds (\<open>None\<close>) or
  raises a storage fault, the feed fetcher returns a document or a falsy marker
  (\<open>None\<close>), and the chat source returns a status and items.
  \<open>load_config\<close> is the configured \<open>skip_processed_articles\<close> or the exception of
  loading; \<open>md5_hexdigest s\<close> is \<open>hashlib.md5(s.encode('utf-8')).hexdigest()\<close>;
  \<open>bs4_get_text\<close> is the HTML parser of \<open>clean_html\<close>; \<open>local_utcoffset\<close> is the
  offset of the local zone; \<open>now_isoformat\<close> is \<open>datetime.now().isoformat()\<close>.
\<close>

record env =
  load_config :: "py_exception + bool"
  normalize_article_id :: "ustr \<Rightarrow> ustr"
  is_article_discarded_for_task :: "ustr \<Rightarrow> ustr \<Rightarrow> bool"
  is_article_sent_for_task :: "ustr \<Rightarrow> ustr \<Rightarrow> bool"
  add_news_article :: "stored_article \<Rightarrow> py_exception option"
  feedparser_parse :: "ustr \<Rightarrow> parsed_feed option"
  parse_wechat_source :: "ustr \<Rightarrow> int \<Rightarrow> wechat_result"
  md5_hexdigest :: "ustr \<Rightarrow> ustr"
  bs4_get_text :: "ustr \<Rightarrow> py_exception + ustr"
  isoformat :: "datetime \<Rightarrow> ustr"
  local_utcoffset :: int
  now_isoformat :: ustr

text \<open>The parser object: the setting it holds between calls.\<close>

record rss_parser =
  skip_processed :: bool

text \<open>
  \<open>refresh_settings\<close> re-reads the setting; when loading raises, the handler leaves
  the old value.
\<close>

definition refresh_settings :: "env \<Rightarrow> rss_parser \<Rightarrow> rss_parser" where
  "refresh_settings env self =
     (case load_config env of
        Inr v \<Rightarrow> self\<lparr>skip_processed := v\<rparr>
      | Inl e \<Rightarrow> self)"

section \<open>The fetch pipeline (\<open>RssParser.fetch_feed\<close>)\<close>

subsection \<open>Results\<close>

text \<open>The dictionary \<open>processed_entry\<close> of the generic branch.\<close>

record rss_item =
  item_title :: ustr
  item_link :: "ustr option"
  item_summary :: ustr
  item_published :: "ustr option"
  item_source :: ustr
  item_content :: ustr
  item_article_id :: ustr
  item_feed_url :: ustr

datatype feed_item = RssItem rss_item | WechatItem wechat_entry

record feed_info =
  info_title :: ustr
  info_description :: ustr
  info_link :: ustr

record fetch_stats =
  total_available :: nat
  processed :: nat
  skipped :: nat

text \<open>
  The dictionary \<open>fetch_feed\<close> returns; \<open>error\<close>, \<open>feed_info\<close> and \<open>stats\<close> are
  \<open>None\<close> where the dictionary has no such key.
\<close>

record fetch_result =
  res_status :: ustr
  res_items :: "feed_item list"
  res_error :: "ustr option"
  res_feed_info :: "feed_info option"
  res_stats :: "fetch_stats option"

subsection \<open>String constants of the source\<close>

text \<open>The literals that are not ASCII, by code point.\<close>

definition wechat_default_source :: ustr where
  "wechat_default_source = [0x5FAE, 0x4FE1, 0x516C, 0x4F17, 0x53F7]"

definition wechat_description :: ustr where
  "wechat_description = wechat_default_source @ [0x5185, 0x5BB9]"

definition unknown_title :: ustr where
  "unknown_title = [0x672A, 0x77E5]"

definition no_title :: ustr where
  "no_title = [0x65E0, 0x6807, 0x9898]"

definition no_description :: ustr where
  "no_description = [0x65E0, 0x63CF, 0x8FF0]"

definition invalid_feed_msg :: ustr where
  "invalid_feed_msg = [0x65E0, 0x6548, 0x7684] @ ustr_of ''Feed''"

definition invalid_structure_msg :: ustr where
  "invalid_structure_msg = ustr_of ''Feed'' @ [0x7ED3, 0x6784, 0x65E0, 0x6548]"

definition empty_feed_msg :: ustr where
  "empty_feed_msg = ustr_of ''Feed'' @ [0x4E3A, 0x7A7A]"

definition reason_discarded :: "ustr \<Rightarrow> ustr" where
  "reason_discarded task_id =
     [0x5728, 0x4EFB, 0x52A1, 32] @ task_id @ [32, 0x4E2D, 0x88AB, 0x4E22, 0x5F03, 0x8FC7]"

definition reason_sent :: "ustr \<Rightarrow> ustr" where
  "reason_sent task_id =
     [0x5728, 0x4EFB, 0x52A1, 32] @ task_id @ [32, 0x4E2D, 0x5DF2, 0x53D1, 0x9001, 0x8FC7]"

subsection \<open>Routing\<close>

definition is_wechat_source :: "ustr \<Rightarrow> bool" where
  "is_wechat_source feed_url =
     (str_contains (ustr_of ''WXS_'') feed_url \<or> str_contains (ustr_of ''weixin'') feed_url)"

subsection \<open>The dedup gate\<close>

text \<open>
  The block \<open>if self.skip_processed and task_id: ...\<close>, which both branches contain
  word for word. Besides \<open>skip_article\<close> and \<open>skip_reason\<close> the model returns the store
  queries the block made, in order. A \<open>task_id\<close> that is \<open>None\<close> or empty is falsy.
\<close>

datatype store_query = QueryDiscarded | QuerySent

definition dedup_gate ::
  "env \<Rightarrow> bool \<Rightarrow> ustr option \<Rightarrow> ustr \<Rightarrow> bool \<times> ustr \<times> store_query list" where
  "dedup_gate env skip_processed_now task_id article_id =
     (case task_id of
        None \<Rightarrow> (False, [], [])
      | Some t \<Rightarrow>
          (if skip_processed_now \<and> t \<noteq> [] then
             (if is_article_discarded_for_task env article_id t
              then (True, reason_discarded t, [QueryDiscarded])
              else if is_article_sent_for_task env article_id t
              then (True, reason_sent t, [QueryDiscarded, QuerySent])
              else (False, [], [QueryDiscarded, QuerySent]))
           else (False, [], [])))"

definition skip_article :: "env \<Rightarrow> bool \<Rightarrow> ustr option \<Rightarrow> ustr \<Rightarrow> bool" where
  "skip_article env skip_processed_now task_id article_id =
     fst (dedup_gate env skip_processed_now task_id article_id)"

subsection \<open>The chat-source branch\<close>

text \<open>Lines 185 to 193: the identifier of a chat-source item.\<close>

definition wechat_article_id :: "env \<Rightarrow> ustr \<Rightarrow> ustr \<Rightarrow> ustr" where
  "wechat_article_id env original_link title =
     (let normalized_link = normalize_article_id env original_link;
          id_string = normalized_link @ ustr_of ''::'' @ title
      in ustr_of ''wechat_'' @ md5_hexdigest env id_string)"

definition wechat_title :: "wechat_entry \<Rightarrow> ustr" where
  "wechat_title entry = (case w_title entry of Some t \<Rightarrow> t | None \<Rightarrow> ustr_of ''No Title'')"

definition wechat_link :: "ustr \<Rightarrow> wechat_entry \<Rightarrow> ustr" where
  "wechat_link feed_url entry = (case w_link entry of Some l \<Rightarrow> l | None \<Rightarrow> feed_url)"

definition wechat_stored :: "env \<Rightarrow> ustr \<Rightarrow> wechat_entry \<Rightarrow> stored_article" where
  "wechat_stored env feed_url entry =
     (let content = (case w_content entry of Some c \<Rightarrow> c | None \<Rightarrow> [])
      in \<lparr>sa_article_id = wechat_article_id env (wechat_link feed_url entry) (wechat_title entry),
          sa_title = wechat_title entry,
          sa_link = Some (wechat_link feed_url entry),
          sa_source = (case w_source entry of Some s \<Rightarrow> s | None \<Rightarrow> wechat_default_source),
          sa_published_date =
            Some (case w_published entry of Some d \<Rightarrow> d | None \<Rightarrow> now_isoformat env),
          sa_content_hash = (if content \<noteq> [] then Some (md5_hexdigest env content) else None)\<rparr>)"

text \<open>
  The loop \<open>for entry in wechat_result["items"]\<close>, with \<open>processed_entries\<close> and
  \<open>skipped_count\<close> as accumulators. A fault of the store ends it.
\<close>

fun wechat_loop ::
  "env \<Rightarrow> bool \<Rightarrow> ustr option \<Rightarrow> ustr \<Rightarrow> wechat_entry list \<Rightarrow> wechat_entry list \<Rightarrow> nat
   \<Rightarrow> py_exception + (wechat_entry list \<times> nat)" where
  "wechat_loop env skip_now task_id feed_url [] processed_entries skipped_count =
     Inr (processed_entries, skipped_count)"
| "wechat_loop env skip_now task_id feed_url (entry # rest) processed_entries skipped_count =
     (let article_id = wechat_article_id env (wechat_link feed_url entry) (wechat_title entry)
      in if skip_article env skip_now task_id article_id
         then wechat_loop env skip_now task_id feed_url rest processed_entries (skipped_count + 1)
         else
           (case add_news_article env (wechat_stored env feed_url entry) of
              Some e \<Rightarrow> Inl e
            | None \<Rightarrow>
                wechat_loop env skip_now task_id feed_url rest
                  (processed_entries @ [entry\<lparr>w_article_id := Some article_id\<rparr>])
                  skipped_count))"

definition fetch_wechat ::
  "env \<Rightarrow> bool \<Rightarrow> ustr option \<Rightarrow> ustr \<Rightarrow> int \<Rightarrow> py_exception + fetch_result" where
  "fetch_wechat env skip_now task_id feed_url items_count =
     (let wechat_result = parse_wechat_source env feed_url items_count
      in if w_status wechat_result \<noteq> ustr_of ''success''
         then Inr \<lparr>res_status = w_status wechat_result,
                   res_items = map WechatItem (w_items wechat_result),
                   res_error = w_error wechat_result,
                   res_feed_info = None, res_stats = None\<rparr>
         else
           (let total_entries = length (w_items wechat_result)
            in case wechat_loop env skip_now task_id feed_url (w_items wechat_result) [] 0 of
                 Inl e \<Rightarrow> Inl e
               | Inr (processed_entries, skipped_count) \<Rightarrow>
                   Inr \<lparr>res_status = ustr_of ''success'',
                        res_items = map WechatItem processed_entries,
                        res_error = None,
                        res_feed_info = Some
                          \<lparr>info_title =
                             (case processed_entries of
                                [] \<Rightarrow> unknown_title
                              | first # _ \<Rightarrow>
                                  (case w_source first of
                                     Some s \<Rightarrow> s | None \<Rightarrow> wechat_default_source)),
                           info_description = wechat_description,
                           info_link = feed_url\<rparr>,
                        res_stats = Some
                          \<lparr>total_available = total_entries,
                           processed = length processed_entries,
                           skipped = skipped_count\<rparr>\<rparr>))"

subsection \<open>The generic branch\<close>

text \<open>
  The base identifier: \<open>id\<close> when it is there and not empty, else \<open>link\<close>
  (\<open>getattr(entry, 'id', None)\<close>, \<open>getattr(entry, 'link', None)\<close>).
\<close>

definition base_id :: "raw_entry \<Rightarrow> ustr option" where
  "base_id entry =
     (case entry_id entry of
        Some i \<Rightarrow> if i \<noteq> [] then Some i else entry_link entry
      | None \<Rightarrow> entry_link entry)"

text \<open>\<open>datetime(*parsed[:6])\<close>.\<close>

definition datetime_of_struct :: "struct_time \<Rightarrow> py_exception + datetime" where
  "datetime_of_struct t =
     datetime_new (tm_year t) (tm_mon t) (tm_mday t) (tm_hour t) (tm_min t) (tm_sec t)"

definition none_isoformat_error :: py_exception where
  "none_isoformat_error =
     \<lparr>exc_class = ustr_of ''AttributeError'',
      exc_msg = ustr_of (CHR 0x27 # ''NoneType'' @ CHR 0x27 # '' object has no attribute ''
                         @ CHR 0x27 # ''isoformat'' @ [CHR 0x27])\<rparr>"

text \<open>
  Lines 338 to 343 (and 345 to 349): the parsed time becomes a datetime, UTC is attached,
  it is converted to local time and rendered. The constructor and the conversion may
  raise.
\<close>

definition entry_datetime :: "env \<Rightarrow> struct_time \<Rightarrow> py_exception + ustr" where
  "entry_datetime env parsed =
     (case datetime_of_struct parsed of
        Inl e \<Rightarrow> Inl e
      | Inr pub_datetime \<Rightarrow>
          (let pub_datetime = replace_tzinfo pub_datetime (Some 0)
           in case convert_to_local_time (local_utcoffset env) (Some pub_datetime) of
                Inl e \<Rightarrow> Inl e
              | Inr None \<Rightarrow> Inl none_isoformat_error
              | Inr (Some d) \<Rightarrow> Inr (isoformat env d)))"

definition published_date :: "env \<Rightarrow> raw_entry \<Rightarrow> py_exception + ustr option" where
  "published_date env entry =
     (case published_parsed entry of
        Some parsed \<Rightarrow>
          (case entry_datetime env parsed of Inl e \<Rightarrow> Inl e | Inr d \<Rightarrow> Inr (Some d))
      | None \<Rightarrow>
          (case updated_parsed entry of
             Some parsed \<Rightarrow>
               (case entry_datetime env parsed of Inl e \<Rightarrow> Inl e | Inr d \<Rightarrow> Inr (Some d))
           | None \<Rightarrow> Inr None))"

definition feed_source :: "parsed_feed \<Rightarrow> ustr \<Rightarrow> ustr" where
  "feed_source fd feed_url =
     (case feed_meta fd of
        Some m \<Rightarrow> (case meta_title m of Some t \<Rightarrow> t | None \<Rightarrow> feed_url)
      | None \<Rightarrow> feed_url)"

definition cleaned_summary :: "env \<Rightarrow> raw_entry \<Rightarrow> ustr" where
  "cleaned_summary env entry =
     (let raw_summary = (case entry_summary entry of Some s \<Rightarrow> s | None \<Rightarrow> [])
      in clean_html (bs4_get_text env) raw_summary)"

definition cleaned_content :: "env \<Rightarrow> raw_entry \<Rightarrow> ustr" where
  "cleaned_content env entry =
     (let raw_summary = (case entry_summary entry of Some s \<Rightarrow> s | None \<Rightarrow> []);
          raw_content =
            (case entry_content entry of
               Some (c # _) \<Rightarrow> c
             | Some [] \<Rightarrow> raw_summary
             | None \<Rightarrow> raw_summary)
      in clean_html (bs4_get_text env) raw_content)"

text \<open>Lines 352 to 376: the dictionary built for an entry that is kept.\<close>

definition build_entry ::
  "env \<Rightarrow> ustr \<Rightarrow> parsed_feed \<Rightarrow> raw_entry \<Rightarrow> ustr \<Rightarrow> ustr option \<Rightarrow> rss_item" where
  "build_entry env feed_url fd entry article_id published =
     \<lparr>item_title = (case entry_title entry of Some t \<Rightarrow> t | None \<Rightarrow> no_title),
      item_link = entry_link entry,
      item_summary = cleaned_summary env entry,
      item_published = published,
      item_source = feed_source fd feed_url,
      item_content = cleaned_content env entry,
      item_article_id = article_id,
      item_feed_url = feed_url\<rparr>"

text \<open>
  Lines 386 to 400: the arguments of the upsert. The hash is over the cleaned content,
  or the cleaned summary when the content is empty.
\<close>

definition rss_stored ::
  "env \<Rightarrow> ustr \<Rightarrow> parsed_feed \<Rightarrow> raw_entry \<Rightarrow> ustr \<Rightarrow> ustr option \<Rightarrow> ustr \<Rightarrow> stored_article" where
  "rss_stored env feed_url fd entry article_id published title =
     (let content_to_hash =
            (if cleaned_content env entry \<noteq> [] then cleaned_content env entry
             else cleaned_summary env entry)
      in \<lparr>sa_article_id = article_id,
          sa_title = title,
          sa_link = entry_link entry,
          sa_source = feed_source fd feed_url,
          sa_published_date = published,
          sa_content_hash =
            (if content_to_hash \<noteq> [] then Some (md5_hexdigest env content_to_hash) else None)\<rparr>)"

text \<open>
  Line 395 reads \<open>entry.title\<close> with no \<open>hasattr\<close> guard: on an entry without a title
  the feed parser's dictionary raises this \<open>AttributeError\<close>.
\<close>

definition missing_title_error :: py_exception where
  "missing_title_error =
     \<lparr>exc_class = ustr_of ''AttributeError'',
      exc_msg = ustr_of (''object has no attribute '' @ CHR 0x27 # ''title'' @ [CHR 0x27])\<rparr>"

text \<open>
  One pass of the loop body for \<open>entry\<close> (lines 300 to 400): the entry has no
  identifier (\<open>continue\<close>), is skipped by the gate (\<open>skipped_count += 1\<close>,
  \<open>continue\<close>), or is appended and stored; an exception ends the call.
\<close>

definition process_entry ::
  "env \<Rightarrow> bool \<Rightarrow> ustr option \<Rightarrow> ustr \<Rightarrow> parsed_feed \<Rightarrow> raw_entry \<Rightarrow> rss_item list \<Rightarrow> nat
   \<Rightarrow> py_exception + (rss_item list \<times> nat)" where
  "process_entry env skip_now task_id feed_url fd entry processed_entries skipped_count =
     (case base_id entry of
        None \<Rightarrow> Inr (processed_entries, skipped_count)
      | Some b \<Rightarrow>
          (if b = [] then Inr (processed_entries, skipped_count)
           else
             (let article_id = normalize_article_id env b
              in if skip_article env skip_now task_id article_id
                 then Inr (processed_entries, skipped_count + 1)
                 else
                   (case published_date env entry of
                      Inl e \<Rightarrow> Inl e
                    | Inr published \<Rightarrow>
                        (let processed_entry =
                               build_entry env feed_url fd entry article_id published;
                             processed_entries = processed_entries @ [processed_entry]
                         in case entry_title entry of
                              None \<Rightarrow> Inl missing_title_error
                            | Some title \<Rightarrow>
                                (case add_news_article env
                                        (rss_stored env feed_url fd entry article_id
                                           published title) of
                                   Some e \<Rightarrow> Inl e
                                 | None \<Rightarrow> Inr (processed_entries, skipped_count)))))))"

text \<open>The \<open>while\<close> loop of lines 293 to 400.\<close>

function rss_loop ::
  "env \<Rightarrow> bool \<Rightarrow> ustr option \<Rightarrow> ustr \<Rightarrow> parsed_feed \<Rightarrow> raw_entry list \<Rightarrow> int \<Rightarrow> nat
   \<Rightarrow> nat \<Rightarrow> rss_item list \<Rightarrow> nat \<Rightarrow> py_exception + (rss_item list \<times> nat)" where
  "rss_loop env skip_now task_id feed_url fd entries items_count total_entries
     entry_index processed_entries skipped_count =
     (if int (length processed_entries) < items_count \<and> entry_index < total_entries then
        (if entry_index \<ge> length entries then Inr (processed_entries, skipped_count)
         else
           (case process_entry env skip_now task_id feed_url fd (entries ! entry_index)
                   processed_entries skipped_count of
              Inl e \<Rightarrow> Inl e
            | Inr (processed_entries, skipped_count) \<Rightarrow>
                rss_loop env skip_now task_id feed_url fd entries items_count total_entries
                  (entry_index + 1) processed_entries skipped_count))
      else Inr (processed_entries, skipped_count))"
  by pat_completeness auto
termination
  by (relation "measure (\<lambda>(env, skip_now, task_id, feed_url, fd, entries, items_count,
        total_entries, entry_index, processed_entries, skipped_count).
        total_entries - entry_index)") auto

declare rss_loop.simps [simp del]

definition fail_result :: "ustr \<Rightarrow> fetch_result" where
  "fail_result msg =
     \<lparr>res_status = ustr_of ''fail'', res_items = [], res_error = Some msg,
      res_feed_info = None, res_stats = None\<rparr>"

definition rss_feed_info :: "parsed_feed \<Rightarrow> ustr \<Rightarrow> feed_info" where
  "rss_feed_info fd feed_url =
     \<lparr>info_title =
        (case feed_meta fd of
           Some m \<Rightarrow> (case meta_title m of Some t \<Rightarrow> t | None \<Rightarrow> unknown_title)
         | None \<Rightarrow> unknown_title),
      info_description =
        (case feed_meta fd of
           Some m \<Rightarrow> (case meta_description m of Some d \<Rightarrow> d | None \<Rightarrow> no_description)
         | None \<Rightarrow> no_description),
      info_link =
        (case feed_meta fd of
           Some m \<Rightarrow> (case meta_link m of Some l \<Rightarrow> l | None \<Rightarrow> feed_url)
         | None \<Rightarrow> feed_url)\<rparr>"

text \<open>Lines 256 to 433, for the object \<open>feed\<close> that \<open>feedparser.parse\<close> returned.\<close>

definition rss_result ::
  "env \<Rightarrow> bool \<Rightarrow> ustr option \<Rightarrow> ustr \<Rightarrow> int \<Rightarrow> parsed_feed option
   \<Rightarrow> py_exception + fetch_result" where
  "rss_result env skip_now task_id feed_url items_count feed =
     (case feed of
        None \<Rightarrow> Inr (fail_result invalid_feed_msg)
      | Some fd \<Rightarrow>
          (case feed_entries fd of
             None \<Rightarrow> Inr (fail_result invalid_structure_msg)
           | Some entries \<Rightarrow>
               (if entries = [] then Inr (fail_result empty_feed_msg)
                else
                  (let total_entries = length entries
                   in case rss_loop env skip_now task_id feed_url fd entries items_count
                             total_entries 0 [] 0 of
                        Inl e \<Rightarrow> Inl e
                      | Inr (processed_entries, skipped_count) \<Rightarrow>
                          Inr \<lparr>res_status = ustr_of ''success'',
                               res_items = map RssItem processed_entries,
                               res_error = None,
                               res_feed_info = Some (rss_feed_info fd feed_url),
                               res_stats = Some
                                 \<lparr>total_available = total_entries,
                                  processed = length processed_entries,
                                  skipped = skipped_count\<rparr>\<rparr>))))"

definition fetch_rss ::
  "env \<Rightarrow> bool \<Rightarrow> ustr option \<Rightarrow> ustr \<Rightarrow> int \<Rightarrow> py_exception + fetch_result" where
  "fetch_rss env skip_now task_id feed_url items_count =
     rss_result env skip_now task_id feed_url items_count (feedparser_parse env feed_url)"

subsection \<open>\<open>fetch_feed\<close>\<close>

text \<open>
  The body of the \<open>try\<close>: the settings are refreshed, then the URL selects the branch.
  The \<open>recipients\<close> argument and the clock are only logged and are left out.
\<close>

definition fetch_feed_body ::
  "env \<Rightarrow> rss_parser \<Rightarrow> ustr \<Rightarrow> int \<Rightarrow> ustr option \<Rightarrow> py_exception + fetch_result" where
  "fetch_feed_body env self feed_url items_count task_id =
     (let self = refresh_settings env self
      in if is_wechat_source feed_url
         then fetch_wechat env (skip_processed self) task_id feed_url items_count
         else fetch_rss env (skip_processed self) task_id feed_url items_count)"

text \<open>
  The handler \<open>except Exception as e\<close>: the result carries \<open>str(e)\<close>. The values
  of \<open>py_exception\<close> are instances of \<open>Exception\<close>; an interrupt or an exit of the
  interpreter is no fault of the processing and is outside the model.
\<close>

definition fetch_feed ::
  "env \<Rightarrow> rss_parser \<Rightarrow> ustr \<Rightarrow> int \<Rightarrow> ustr option \<Rightarrow> fetch_result" where
  "fetch_feed env self feed_url items_count task_id =
     (case fetch_feed_body env self feed_url items_count task_id of
        Inr result \<Rightarrow> result
      | Inl e \<Rightarrow> fail_result (exc_msg e))"

section \<open>Auxiliary definitions and example inputs\<close>

text \<open>A line as the sanitizer emits it: not empty, no whitespace at either end, collapsed.\<close>

definition tidy_line :: "ustr \<Rightarrow> bool" where
  "tidy_line l = (l \<noteq> [] \<and> \<not> is_space (hd l) \<and> \<not> is_space (last l) \<and> collapse_ws l = l)"

text \<open>
  The \<open>while\<close> loop as a recursion over the entries that are left; \<open>rss_loop_entries\<close>
  below shows that \<open>rss_loop\<close> computes it.
\<close>

fun rss_entries ::
  "env \<Rightarrow> bool \<Rightarrow> ustr option \<Rightarrow> ustr \<Rightarrow> parsed_feed \<Rightarrow> int \<Rightarrow> raw_entry list
   \<Rightarrow> rss_item list \<Rightarrow> nat \<Rightarrow> py_exception + (rss_item list \<times> nat)" where
  "rss_entries env skip_now task_id feed_url fd items_count [] processed_entries skipped_count =
     Inr (processed_entries, skipped_count)"
| "rss_entries env skip_now task_id feed_url fd items_count (entry # rest) processed_entries
     skipped_count =
     (if int (length processed_entries) < items_count then
        (case process_entry env skip_now task_id feed_url fd entry processed_entries
                skipped_count of
           Inl e \<Rightarrow> Inl e
         | Inr (processed_entries, skipped_count) \<Rightarrow>
             rss_entries env skip_now task_id feed_url fd items_count rest processed_entries
               skipped_count)
      else Inr (processed_entries, skipped_count))"

text \<open>The \<open>article_id\<close> key of a returned item.\<close>

definition item_id :: "feed_item \<Rightarrow> ustr option" where
  "item_id it = (case it of RssItem i \<Rightarrow> Some (item_article_id i) | WechatItem e \<Rightarrow> w_article_id e)"

text \<open>A UTC offset of whole hours, in microseconds.\<close>

definition hours :: "int \<Rightarrow> int" where
  "hours h = h * 3600 * 1000000"

text \<open>
  Two HTML parsers for concrete inputs. \<open>rejecting_parser\<close> raises, as the library does
  on a marked section with an unknown keyword. \<open>example_get_text\<close> extracts text in the
  manner of the library on simple markup: tags are dropped, the character references
  \<open>&lt;\<close>, \<open>&gt;\<close> and \<open>&amp;\<close> are decoded, the text is stripped.
\<close>

definition parser_rejected :: py_exception where
  "parser_rejected =
     \<lparr>exc_class = ustr_of ''ParserRejectedMarkup'',
      exc_msg = ustr_of (''unknown status keyword '' @ CHR 0x27 # ''x'' @ CHR 0x27
                         # '' in marked section'')\<rparr>"

definition rejecting_parser :: "ustr \<Rightarrow> py_exception + ustr" where
  "rejecting_parser markup = Inl parser_rejected"

function plain_text :: "ustr \<Rightarrow> ustr" where
  "plain_text [] = []"
| "plain_text (c # cs) =
     (if c = 60 then plain_text (drop 1 (dropWhile (\<lambda>d. d \<noteq> 62) cs))
      else if startswith (c # cs) (ustr_of ''&lt;'') then 60 # plain_text (drop 3 cs)
      else if startswith (c # cs) (ustr_of ''&gt;'') then 62 # plain_text (drop 3 cs)
      else if startswith (c # cs) (ustr_of ''&amp;'') then 38 # plain_text (drop 4 cs)
      else c # plain_text cs)"
  by pat_completeness auto
termination
  by (relation "measure length")
     (auto simp: less_Suc_eq_le intro: le_trans [OF diff_le_self length_dropWhile_le])

definition example_get_text :: "ustr \<Rightarrow> py_exception + ustr" where
  "example_get_text markup = Inr (py_strip (plain_text markup))"

text \<open>
  An example world: a feed with the given entries, a chat source with the given items,
  a store that accepts every upsert and whose history holds one discarded and one sent
  article, the identity as canonicalization, and list reversal standing in for the
  digest.
\<close>

definition example_env :: "raw_entry list \<Rightarrow> wechat_entry list \<Rightarrow> env" where
  "example_env entries chat_items =
     \<lparr>load_config = Inr True,
      normalize_article_id = (\<lambda>raw. raw),
      is_article_discarded_for_task = (\<lambda>article_id task_id. article_id = ustr_of ''discarded''),
      is_article_sent_for_task =
        (\<lambda>article_id task_id. article_id = ustr_of ''discarded'' \<or> article_id = ustr_of ''sent''),
      add_news_article = (\<lambda>article. None),
      feedparser_parse = (\<lambda>url. Some \<lparr>feed_entries = Some entries, feed_meta = None\<rparr>),
      parse_wechat_source =
        (\<lambda>url count. \<lparr>w_status = ustr_of ''success'', w_items = chat_items, w_error = None\<rparr>),
      md5_hexdigest = rev,
      bs4_get_text = example_get_text,
      isoformat = (\<lambda>dt. []),
      local_utcoffset = hours 8,
      now_isoformat = []\<rparr>"

definition example_entry :: "ustr option \<Rightarrow> ustr option \<Rightarrow> ustr option \<Rightarrow> raw_entry" where
  "example_entry i l t =
     \<lparr>entry_id = i, entry_link = l, entry_title = t,
      entry_summary = Some (ustr_of ''<p>Hello <em>world</em></p>''),
      entry_content = None, published_parsed = None, updated_parsed = None\<rparr>"

definition example_chat_item :: "ustr \<Rightarrow> ustr \<Rightarrow> wechat_entry" where
  "example_chat_item l t =
     \<lparr>w_title = Some t, w_link = Some l, w_content = Some (ustr_of ''text''),
      w_source = None, w_published = None, w_article_id = None\<rparr>"

section \<open>Properties of strings and of the sanitizer\<close>

lemma startswith_iff: "startswith s p \<longleftrightarrow> (\<exists>t. s = p @ t)"
  by (induction s p rule: startswith.induct) auto

lemma str_contains_iff: "str_contains needle s \<longleftrightarrow> (\<exists>pre post. s = pre @ needle @ post)"
proof (induction s)
  case Nil
  then show ?case by auto
next
  case (Cons c cs)
  show ?case
  proof
    assume "str_contains needle (c # cs)"
    then consider "startswith (c # cs) needle" | "str_contains needle cs" by auto
    then show "\<exists>pre post. c # cs = pre @ needle @ post"
    proof cases
      case 1
      then obtain t where "c # cs = needle @ t" by (auto simp: startswith_iff)
      then have "c # cs = [] @ needle @ t" by simp
      then show ?thesis by blast
    next
      case 2
      with Cons obtain pre post where "cs = pre @ needle @ post" by auto
      then have "c # cs = (c # pre) @ needle @ post" by simp
      then show ?thesis by blast
    qed
  next
    assume "\<exists>pre post. c # cs = pre @ needle @ post"
    then obtain pre post where eq: "c # cs = pre @ needle @ post" by auto
    show "str_contains needle (c # cs)"
    proof (cases pre)
      case Nil
      with eq have "startswith (c # cs) needle" by (auto simp: startswith_iff)
      then show ?thesis by simp
    next
      case (Cons p ps)
      with eq have "cs = ps @ needle @ post" by simp
      then have "str_contains needle cs" using Cons.IH by blast
      then show ?thesis by simp
    qed
  qed
qed

lemma process_lines_eq:
  "process_lines ls acc = acc @ map collapse_ws (filter (\<lambda>l. l \<noteq> []) (map py_strip ls))"
  by (induction ls arbitrary: acc) (simp_all add: Let_def)

lemma linebreak_is_space: "is_linebreak c \<Longrightarrow> is_space c"
  by (auto simp: is_linebreak_def is_space_def)

lemma space_32: "is_space 32"
  by (simp add: is_space_def)

lemma collapse_ws_Nil_iff: "collapse_ws s = [] \<longleftrightarrow> s = []"
  by (cases s) auto

lemma collapse_ws_spaces: "c \<in> set (collapse_ws s) \<Longrightarrow> is_space c \<Longrightarrow> c = 32"
  by (induction s rule: collapse_ws.induct) (auto split: if_splits)

lemma collapse_ws_hd: "s \<noteq> [] \<Longrightarrow> \<not> is_space (hd s) \<Longrightarrow> hd (collapse_ws s) = hd s"
  by (cases s) auto

lemma collapse_ws_last: "s \<noteq> [] \<Longrightarrow> \<not> is_space (last s) \<Longrightarrow> last (collapse_ws s) = last s"
proof (induction s rule: collapse_ws.induct)
  case 1
  then show ?case by simp
next
  case (2 c cs)
  show ?case
  proof (cases "is_space c")
    case True
    with 2 have ne: "cs \<noteq> []" by auto
    with 2 have lst: "\<not> is_space (last cs)" by simp
    have dne: "dropWhile is_space cs \<noteq> []"
    proof
      assume "dropWhile is_space cs = []"
      then have "\<forall>x\<in>set cs. is_space x" by (simp add: dropWhile_eq_Nil_conv)
      with ne lst show False using last_in_set by blast
    qed
    have "last (dropWhile is_space cs) = last cs"
      using dne by (metis last_appendR takeWhile_dropWhile_id)
    have ih: "last (collapse_ws (dropWhile is_space cs)) = last (dropWhile is_space cs)"
      using "2.IH"(1) [OF True dne] lst \<open>last (dropWhile is_space cs) = last cs\<close> by simp
    have "last (collapse_ws (c # cs)) = last (collapse_ws (dropWhile is_space cs))"
    proof -
      have "collapse_ws (dropWhile is_space cs) \<noteq> []" using dne by (simp add: collapse_ws_Nil_iff)
      moreover have "collapse_ws (c # cs) = 32 # collapse_ws (dropWhile is_space cs)" using True by simp
      ultimately show ?thesis by (simp only: last.simps if_False)
    qed
    also have "\<dots> = last cs" using ih \<open>last (dropWhile is_space cs) = last cs\<close> by simp
    also have "\<dots> = last (c # cs)" using ne by simp
    finally show ?thesis .
  next
    case False
    with 2 show ?thesis by (cases "cs = []") (simp_all add: collapse_ws_Nil_iff)
  qed
qed

lemma dropWhile_collapse_ws:
  "s = [] \<or> \<not> is_space (hd s) \<Longrightarrow> dropWhile is_space (collapse_ws s) = collapse_ws s"
  by (cases s) auto

lemma dropWhile_hd: "dropWhile P xs = [] \<or> \<not> P (hd (dropWhile P xs))"
  by (metis hd_dropWhile)

lemma collapse_ws_idem: "collapse_ws (collapse_ws s) = collapse_ws s"
proof (induction s rule: collapse_ws.induct)
  case 1
  then show ?case by simp
next
  case (2 c cs)
  show ?case
  proof (cases "is_space c")
    case True
    have "dropWhile is_space (collapse_ws (dropWhile is_space cs)) = collapse_ws (dropWhile is_space cs)"
      by (rule dropWhile_collapse_ws) (rule dropWhile_hd)
    with True 2 show ?thesis by (simp add: space_32)
  next
    case False
    with 2 show ?thesis by simp
  qed
qed

lemma py_strip_fix: "s \<noteq> [] \<Longrightarrow> \<not> is_space (hd s) \<Longrightarrow> \<not> is_space (last s) \<Longrightarrow> py_strip s = s"
proof -
  assume ne: "s \<noteq> []" and h: "\<not> is_space (hd s)" and l: "\<not> is_space (last s)"
  from ne h have "dropWhile is_space s = s" by (cases s) auto
  moreover from ne l have "dropWhile is_space (rev s) = rev s"
    by (cases "rev s") (auto simp: last_rev [symmetric] hd_rev)
  ultimately show ?thesis by (simp add: py_strip_def)
qed

lemma py_strip_ends:
  assumes "py_strip s \<noteq> []"
  shows "\<not> is_space (hd (py_strip s))" and "\<not> is_space (last (py_strip s))"
proof -
  let ?a = "dropWhile is_space s"
  let ?b = "dropWhile is_space (rev ?a)"
  from assms have bne: "?b \<noteq> []" by (simp add: py_strip_def)
  then have "rev ?a \<noteq> []" by (metis dropWhile.simps(1))
  then have ane: "?a \<noteq> []" by simp
  have hb: "\<not> is_space (hd ?b)" using bne by (metis hd_dropWhile)
  then show "\<not> is_space (last (py_strip s))"
    using bne by (simp add: py_strip_def last_rev)
  have ha: "\<not> is_space (hd ?a)" using ane by (metis hd_dropWhile)
  have "rev ?a = takeWhile is_space (rev ?a) @ ?b" by simp
  then have "?a = rev ?b @ rev (takeWhile is_space (rev ?a))"
    by (metis rev_append rev_rev_ident)
  then have "hd ?a = hd (rev ?b)" using bne by (metis hd_append2 rev_is_Nil_conv)
  with ha show "\<not> is_space (hd (py_strip s))" by (simp add: py_strip_def)
qed


lemma tidy_collapse_strip: "py_strip x \<noteq> [] \<Longrightarrow> tidy_line (collapse_ws (py_strip x))"
  using py_strip_ends [of x]
  by (simp add: tidy_line_def collapse_ws_Nil_iff collapse_ws_hd collapse_ws_last collapse_ws_idem)

lemma tidy_no_linebreak: "tidy_line l \<Longrightarrow> c \<in> set l \<Longrightarrow> \<not> is_linebreak c"
proof
  assume t: "tidy_line l" and c: "c \<in> set l" and lb: "is_linebreak c"
  from t have "collapse_ws l = l" by (simp add: tidy_line_def)
  with c have "c \<in> set (collapse_ws l)" by simp
  then have "c = 32" using lb collapse_ws_spaces linebreak_is_space by blast
  with lb show False by (simp add: is_linebreak_def)
qed

lemma tidy_strip: "tidy_line l \<Longrightarrow> py_strip l = l"
  by (simp add: tidy_line_def py_strip_fix)

lemma splitlines_from_append:
  "\<forall>c\<in>set l. \<not> is_linebreak c \<Longrightarrow> splitlines_from cur (l @ rest) = splitlines_from (cur @ l) rest"
  by (induction l arbitrary: cur) simp_all

lemma splitlines_from_sep:
  "splitlines_from cur (paragraph_sep @ rest) = cur # [] # splitlines_from [] rest"
  by (cases rest) (simp_all add: paragraph_sep_def is_linebreak_def)

lemma py_strip_Nil: "py_strip [] = []"
  by (simp add: py_strip_def)

lemma lines_of_join:
  "list_all tidy_line ls \<Longrightarrow>
   map collapse_ws (filter (\<lambda>l. l \<noteq> []) (map py_strip (splitlines_from [] (join paragraph_sep ls)))) = ls"
proof (induction ls rule: induct_list012)
  case 1
  then show ?case by simp
next
  case (2 x)
  then have t: "tidy_line x" by simp
  then have nb: "\<forall>c\<in>set x. \<not> is_linebreak c" using tidy_no_linebreak by blast
  have "splitlines_from [] (x @ []) = splitlines_from ([] @ x) []"
    using nb by (rule splitlines_from_append)
  then have "splitlines_from [] x = [x]" using t by (simp add: tidy_line_def)
  with t show ?case by (simp add: tidy_strip) (simp add: tidy_line_def)
next
  case (3 x y ys)
  then have t: "tidy_line x" and rest: "list_all tidy_line (y # ys)" by simp_all
  from t have nb: "\<forall>c\<in>set x. \<not> is_linebreak c" using tidy_no_linebreak by blast
  have "splitlines_from [] (x @ (paragraph_sep @ join paragraph_sep (y # ys)))
        = splitlines_from ([] @ x) (paragraph_sep @ join paragraph_sep (y # ys))"
    using nb by (rule splitlines_from_append)
  then have "splitlines_from [] (join paragraph_sep (x # y # ys))
        = x # [] # splitlines_from [] (join paragraph_sep (y # ys))"
    by (simp add: splitlines_from_sep)
  with t "3.IH"(2) [OF rest] show ?case
    by (simp add: tidy_strip py_strip_Nil) (simp add: tidy_line_def)
qed

lemma process_lines_tidy: "list_all tidy_line (process_lines ls [])"
  by (induction ls) (simp_all add: process_lines_eq tidy_collapse_strip)

lemma normalize_text_idem: "normalize_text (normalize_text raw) = normalize_text raw"
  by (simp add: normalize_text_def splitlines_def process_lines_eq [of _ "[]"]
      lines_of_join [OF process_lines_tidy, unfolded process_lines_eq [of _ "[]"], simplified])

lemma clean_html_empty: "clean_html get_text [] = []"
  by (simp add: clean_html_def)

lemma clean_html_parsed:
  "x \<noteq> [] \<Longrightarrow> get_text (re_sub_em x) = Inr raw \<Longrightarrow> clean_html get_text x = normalize_text raw"
  by (simp add: clean_html_def)

lemma clean_html_fault:
  "x \<noteq> [] \<Longrightarrow> get_text (re_sub_em x) = Inl e \<Longrightarrow> clean_html get_text x = re_sub_em x"
  by (simp add: clean_html_def)

lemmas evaluate_clean_html =
  clean_html_def example_get_text_def rejecting_parser_def ustr_of_def match_em_def em_open_def
  em_close_def normalize_text_def splitlines_def py_strip_def is_space_def is_linebreak_def
  paragraph_sep_def

section \<open>Routing\<close>

text \<open>
  C9: a source URL takes the chat-source branch exactly when it contains the substring
  \<open>WXS_\<close> or the substring \<open>weixin\<close> (as written, case matters); every other URL
  takes the generic RSS branch.
\<close>

theorem wechat_routing:
  "(is_wechat_source feed_url \<longleftrightarrow>
      (\<exists>pre post. feed_url = pre @ ustr_of ''WXS_'' @ post)
      \<or> (\<exists>pre post. feed_url = pre @ ustr_of ''weixin'' @ post))
   \<and> fetch_feed_body env self feed_url items_count task_id =
       (if (\<exists>pre post. feed_url = pre @ ustr_of ''WXS_'' @ post)
           \<or> (\<exists>pre post. feed_url = pre @ ustr_of ''weixin'' @ post)
        then fetch_wechat env (skip_processed (refresh_settings env self)) task_id feed_url
               items_count
        else fetch_rss env (skip_processed (refresh_settings env self)) task_id feed_url
               items_count)"
  by (simp add: is_wechat_source_def fetch_feed_body_def Let_def str_contains_iff)

theorem wechat_routing_witness:
  "is_wechat_source (ustr_of ''http://host/feed/WXS_42'')
   \<and> (\<exists>pre post. ustr_of ''http://host/feed/WXS_42'' = pre @ ustr_of ''WXS_'' @ post)
   \<and> is_wechat_source (ustr_of ''https://mp.weixin.qq.com/s'')
   \<and> \<not> is_wechat_source (ustr_of ''https://example.org/Weixin/wxs_1.xml'')"
proof -
  have a: "is_wechat_source (ustr_of ''http://host/feed/WXS_42'')"
    and b: "is_wechat_source (ustr_of ''https://mp.weixin.qq.com/s'')"
    and c: "\<not> is_wechat_source (ustr_of ''https://example.org/Weixin/wxs_1.xml'')"
    by (simp_all add: is_wechat_source_def ustr_of_def)
  have d: "\<not> (\<exists>pre post. ustr_of ''http://host/feed/WXS_42'' = pre @ ustr_of ''weixin'' @ post)"
    by (simp add: str_contains_iff [symmetric]) (simp add: ustr_of_def)
  from a d wechat_routing [of "ustr_of ''http://host/feed/WXS_42''"]
  have "\<exists>pre post. ustr_of ''http://host/feed/WXS_42'' = pre @ ustr_of ''WXS_'' @ post"
    by blast
  with a b c show ?thesis by blast
qed

section \<open>Timestamps\<close>

lemma datetime_new_2024: "datetime_new 2024 1 1 0 0 0 = Inr (datetime_value 2024 1 1 0 0 0)"
  by (simp add: datetime_new_def days_in_month_def)

lemma datetime_new_9999: "datetime_new 9999 12 31 23 0 0 = Inr (datetime_value 9999 12 31 23 0 0)"
  by (simp add: datetime_new_def days_in_month_def)

lemmas evaluate_datetime =
  datetime_value_def ymd2ord_def days_before_year_def days_before_month_def is_leap_def
  in_range_def max_ordinal_def hours_def replace_tzinfo_def

text \<open>
  C3: a publish timestamp that is \<open>None\<close> stays \<open>None\<close>. One that carries a zone is
  converted to the local zone (the same instant, on the local wall clock), and a naive
  one has UTC attached as its source zone and is then converted, so that its wall clock
  is read as UTC: both provided the wall clocks of UTC and of the local zone stay
  within the years 1 to 9999, and otherwise the conversion raises \<open>OverflowError\<close>. In
  particular the naive 2024-01-01T00:00:00 under a local offset of +08:00 becomes
  2024-01-01T08:00:00+08:00.
\<close>

theorem convert_to_local_time_policy:
  "convert_to_local_time local_tz None = Inr None
   \<and> (tzinfo dt = Some z \<and> in_range (wall_clock dt - z)
        \<and> in_range (wall_clock dt - z + local_tz) \<longrightarrow>
        (\<exists>r. convert_to_local_time local_tz (Some dt) = Inr (Some r)
             \<and> tzinfo r = Some local_tz
             \<and> utc_instant r = utc_instant dt
             \<and> wall_clock r = wall_clock dt - z + local_tz))
   \<and> (tzinfo dt = Some z \<and> \<not> (in_range (wall_clock dt - z)
        \<and> in_range (wall_clock dt - z + local_tz)) \<longrightarrow>
        convert_to_local_time local_tz (Some dt) = Inl overflow_error)
   \<and> (tzinfo dt = None \<and> in_range (wall_clock dt)
        \<and> in_range (wall_clock dt + local_tz) \<longrightarrow>
        (\<exists>r. convert_to_local_time local_tz (Some dt) = Inr (Some r)
             \<and> astimezone local_tz (replace_tzinfo dt (Some 0)) local_tz = Inr r
             \<and> tzinfo r = Some local_tz
             \<and> utc_instant r = wall_clock dt
             \<and> wall_clock r = wall_clock dt + local_tz))
   \<and> (tzinfo dt = None \<and> \<not> (in_range (wall_clock dt)
        \<and> in_range (wall_clock dt + local_tz)) \<longrightarrow>
        convert_to_local_time local_tz (Some dt) = Inl overflow_error)
   \<and> convert_to_local_time (hours 8) (Some (datetime_value 2024 1 1 0 0 0))
       = Inr (Some (replace_tzinfo (datetime_value 2024 1 1 8 0 0) (Some (hours 8))))"
proof -
  have none: "convert_to_local_time local_tz None = Inr None"
    by (simp add: convert_to_local_time_def)
  have aware: "tzinfo dt = Some z \<and> in_range (wall_clock dt - z)
        \<and> in_range (wall_clock dt - z + local_tz) \<longrightarrow>
        (\<exists>r. convert_to_local_time local_tz (Some dt) = Inr (Some r)
             \<and> tzinfo r = Some local_tz
             \<and> utc_instant r = utc_instant dt
             \<and> wall_clock r = wall_clock dt - z + local_tz)"
    by (simp add: convert_to_local_time_def astimezone_def utc_instant_def Let_def)
  have aware_out: "tzinfo dt = Some z \<and> \<not> (in_range (wall_clock dt - z)
        \<and> in_range (wall_clock dt - z + local_tz)) \<longrightarrow>
        convert_to_local_time local_tz (Some dt) = Inl overflow_error"
    by (auto simp: convert_to_local_time_def astimezone_def Let_def)
  have naive: "tzinfo dt = None \<and> in_range (wall_clock dt)
        \<and> in_range (wall_clock dt + local_tz) \<longrightarrow>
        (\<exists>r. convert_to_local_time local_tz (Some dt) = Inr (Some r)
             \<and> astimezone local_tz (replace_tzinfo dt (Some 0)) local_tz = Inr r
             \<and> tzinfo r = Some local_tz
             \<and> utc_instant r = wall_clock dt
             \<and> wall_clock r = wall_clock dt + local_tz)"
    by (simp add: convert_to_local_time_def astimezone_def utc_instant_def replace_tzinfo_def
        Let_def)
  have naive_out: "tzinfo dt = None \<and> \<not> (in_range (wall_clock dt)
        \<and> in_range (wall_clock dt + local_tz)) \<longrightarrow>
        convert_to_local_time local_tz (Some dt) = Inl overflow_error"
    by (auto simp: convert_to_local_time_def astimezone_def replace_tzinfo_def Let_def)
  have scenario: "convert_to_local_time (hours 8) (Some (datetime_value 2024 1 1 0 0 0))
       = Inr (Some (replace_tzinfo (datetime_value 2024 1 1 8 0 0) (Some (hours 8))))"
    by (simp add: convert_to_local_time_def astimezone_def Let_def evaluate_datetime)
  from none aware aware_out naive naive_out scenario show ?thesis by blast
qed

theorem convert_to_local_time_policy_witness:
  "tzinfo (replace_tzinfo (datetime_value 2024 6 30 23 30 0) (Some (hours (-5)))) = Some (hours (-5))
   \<and> convert_to_local_time (hours 8)
        (Some (replace_tzinfo (datetime_value 2024 6 30 23 30 0) (Some (hours (-5)))))
       = Inr (Some (replace_tzinfo (datetime_value 2024 7 1 12 30 0) (Some (hours 8))))
   \<and> tzinfo (datetime_value 2024 1 1 0 0 0) = None
   \<and> convert_to_local_time (hours 8) (Some (datetime_value 2024 1 1 0 0 0))
       = Inr (Some (replace_tzinfo (datetime_value 2024 1 1 8 0 0) (Some (hours 8))))"
proof -
  let ?dt = "replace_tzinfo (datetime_value 2024 6 30 23 30 0) (Some (hours (-5)))"
  have tz: "tzinfo ?dt = Some (hours (-5))" by (simp add: replace_tzinfo_def)
  have r1: "in_range (wall_clock ?dt - hours (-5))"
    and r2: "in_range (wall_clock ?dt - hours (-5) + hours 8)"
    by (simp_all add: evaluate_datetime)
  from convert_to_local_time_policy [of "hours 8" ?dt "hours (-5)"] tz r1 r2
  obtain r where r: "convert_to_local_time (hours 8) (Some ?dt) = Inr (Some r)"
    and rtz: "tzinfo r = Some (hours 8)"
    and rw: "wall_clock r = wall_clock ?dt - hours (-5) + hours 8" by blast
  have "r = replace_tzinfo (datetime_value 2024 7 1 12 30 0) (Some (hours 8))"
    using rtz rw by (cases r) (simp add: evaluate_datetime)
  with r tz convert_to_local_time_policy [of "hours 8" ?dt "hours (-5)"] show ?thesis
    by (simp add: datetime_value_def)
qed

theorem convert_to_local_time_overflow:
  "datetime_new 9999 12 31 23 0 0 = Inr (datetime_value 9999 12 31 23 0 0)
   \<and> tzinfo (datetime_value 9999 12 31 23 0 0) = None
   \<and> convert_to_local_time (hours 8) (Some (datetime_value 9999 12 31 23 0 0))
       = Inl overflow_error
   \<and> convert_to_local_time (hours 8)
        (Some (replace_tzinfo (datetime_value 9999 12 31 23 0 0) (Some 0)))
       = Inl overflow_error"
  by (simp add: datetime_new_9999 convert_to_local_time_def astimezone_def Let_def
      evaluate_datetime)

section \<open>The dedup gate\<close>

lemma reasons_differ: "reason_discarded t \<noteq> reason_sent t"
  by (simp add: reason_discarded_def reason_sent_def)

text \<open>
  C5: for an entry with an article id, when dedup is disabled or the task id is absent
  (\<open>None\<close> or empty, which the source treats alike) the gate makes no query and never
  skips. Otherwise the store is asked "discarded for this task" first and "sent for
  this task" only when the answer is no; the entry is skipped when either holds, and the
  first true answer gives the reason, so that discarded wins when both hold.
\<close>

theorem dedup_gate_policy:
  "((\<not> skip_now \<or> task_id = None \<or> task_id = Some []) \<longrightarrow>
      dedup_gate env skip_now task_id article_id = (False, [], [])
      \<and> \<not> skip_article env skip_now task_id article_id)
   \<and> ((skip_now \<and> task_id = Some t \<and> t \<noteq> []) \<longrightarrow>
      (case dedup_gate env skip_now task_id article_id of
         (skip, reason, queries) \<Rightarrow>
           (queries = (if is_article_discarded_for_task env article_id t
                       then [QueryDiscarded] else [QueryDiscarded, QuerySent]))
           \<and> (skip \<longleftrightarrow> is_article_discarded_for_task env article_id t
                       \<or> is_article_sent_for_task env article_id t)
           \<and> (skip_article env skip_now task_id article_id \<longleftrightarrow> skip)
           \<and> (is_article_discarded_for_task env article_id t \<longrightarrow>
                reason = reason_discarded t)
           \<and> (\<not> is_article_discarded_for_task env article_id t
                \<and> is_article_sent_for_task env article_id t \<longrightarrow> reason = reason_sent t)
           \<and> reason_discarded t \<noteq> reason_sent t))"
  by (auto simp: dedup_gate_def skip_article_def reasons_differ split: option.splits)

theorem dedup_gate_policy_witness:
  "dedup_gate (example_env [] []) False (Some (ustr_of ''task'')) (ustr_of ''discarded'')
     = (False, [], [])
   \<and> dedup_gate (example_env [] []) True (Some (ustr_of ''task'')) (ustr_of ''discarded'')
     = (True, reason_discarded (ustr_of ''task''), [QueryDiscarded])
   \<and> is_article_sent_for_task (example_env [] []) (ustr_of ''discarded'') (ustr_of ''task'')"
proof -
  let ?env = "example_env [] []"
  let ?t = "ustr_of ''task''"
  let ?a = "ustr_of ''discarded''"
  have d: "is_article_discarded_for_task ?env ?a ?t" and s: "is_article_sent_for_task ?env ?a ?t"
    by (simp_all add: example_env_def)
  have ne: "?t \<noteq> []" by (simp add: ustr_of_def)
  from dedup_gate_policy [of False "Some ?t" ?env ?a ?t]
  have off: "dedup_gate ?env False (Some ?t) ?a = (False, [], [])" by simp
  from dedup_gate_policy [of True "Some ?t" ?env ?a ?t] ne d
  have "dedup_gate ?env True (Some ?t) ?a = (True, reason_discarded ?t, [QueryDiscarded])"
    by (cases "dedup_gate ?env True (Some ?t) ?a") auto
  with off s show ?thesis by simp
qed

section \<open>The sanitizer\<close>

text \<open>
  C4: the sanitizer returns the empty string for an empty input without a parse, and
  never raises (\<open>clean_html\<close> is a total function whose handler covers the parser).
  When the parser raises, however, it returns \<open>html_content\<close> after the emphasis
  pre-pass has rewritten it, not the original input: on \<open><em>a</em><![x]>\<close>, which
  the parser rejects, the result is \<open>a<![x]>\<close>.
\<close>

theorem clean_html_fault_returns_rewritten:
  "clean_html rejecting_parser (ustr_of ''<em>a</em><![x]>'') = ustr_of ''a<![x]>''
   \<and> clean_html rejecting_parser (ustr_of ''<em>a</em><![x]>'') \<noteq> ustr_of ''<em>a</em><![x]>''"
  by (simp add: evaluate_clean_html)

text \<open>
  C8: the line and whitespace normalisation is idempotent, and so is the sanitizer on
  every input that the parser accepts and whose sanitized text is plain text for the
  pre-pass and the parser, which give it back unchanged. It is not idempotent on every
  input: a character reference decodes to markup that a second pass removes.
\<close>

theorem clean_html_idempotent_on_plain_text:
  "normalize_text (normalize_text raw_text) = normalize_text raw_text
   \<and> (get_text (re_sub_em x) = Inr raw
        \<and> get_text (re_sub_em (clean_html get_text x)) = Inr (clean_html get_text x)
      \<longrightarrow> clean_html get_text (clean_html get_text x) = clean_html get_text x)"
proof -
  have "clean_html get_text (clean_html get_text x) = clean_html get_text x"
    if p: "get_text (re_sub_em x) = Inr raw"
      and q: "get_text (re_sub_em (clean_html get_text x)) = Inr (clean_html get_text x)"
  proof (cases "x = []")
    case True
    then show ?thesis by (simp add: clean_html_empty)
  next
    case False
    with p have y: "clean_html get_text x = normalize_text raw" by (simp add: clean_html_parsed)
    show ?thesis
    proof (cases "normalize_text raw = []")
      case True
      with y show ?thesis by (simp add: clean_html_empty)
    next
      case False
      from q y have "get_text (re_sub_em (normalize_text raw)) = Inr (normalize_text raw)"
        by simp
      with False have "clean_html get_text (normalize_text raw) = normalize_text (normalize_text raw)"
        by (simp add: clean_html_parsed)
      with y show ?thesis by (simp add: normalize_text_idem)
    qed
  qed
  then show ?thesis by (simp add: normalize_text_idem)
qed

theorem clean_html_idempotent_witness:
  "clean_html example_get_text (ustr_of ''<p>Hello <em>world</em></p>'') = ustr_of ''Hello world''
   \<and> clean_html example_get_text (ustr_of ''Hello world'') = ustr_of ''Hello world''"
proof -
  let ?x = "ustr_of ''<p>Hello <em>world</em></p>''"
  have y: "clean_html example_get_text ?x = ustr_of ''Hello world''"
    by (simp add: evaluate_clean_html)
  have p: "example_get_text (re_sub_em ?x) = Inr (ustr_of ''Hello world'')"
    by (simp add: evaluate_clean_html)
  have q: "example_get_text (re_sub_em (ustr_of ''Hello world'')) = Inr (ustr_of ''Hello world'')"
    by (simp add: evaluate_clean_html)
  from clean_html_idempotent_on_plain_text [of _ example_get_text ?x "ustr_of ''Hello world''"]
    p q y
  have "clean_html example_get_text (ustr_of ''Hello world'') = ustr_of ''Hello world''"
    by simp
  with y show ?thesis by simp
qed

theorem clean_html_not_idempotent:
  "clean_html example_get_text (ustr_of ''&lt;b&gt;x&lt;/b&gt;'') = ustr_of ''<b>x</b>''
   \<and> clean_html example_get_text (clean_html example_get_text (ustr_of ''&lt;b&gt;x&lt;/b&gt;''))
       = ustr_of ''x''
   \<and> clean_html example_get_text (clean_html example_get_text (ustr_of ''&lt;b&gt;x&lt;/b&gt;''))
       \<noteq> clean_html example_get_text (ustr_of ''&lt;b&gt;x&lt;/b&gt;'')"
proof -
  have a: "clean_html example_get_text (ustr_of ''&lt;b&gt;x&lt;/b&gt;'') = ustr_of ''<b>x</b>''"
    by (simp add: evaluate_clean_html)
  have b: "clean_html example_get_text (ustr_of ''<b>x</b>'') = ustr_of ''x''"
    by (simp add: evaluate_clean_html)
  have c: "ustr_of ''x'' \<noteq> ustr_of ''<b>x</b>''" by (simp add: ustr_of_def)
  from a b c show ?thesis by simp
qed

section \<open>Properties of the loops\<close>

lemma rss_entries_full:
  "\<not> int (length p) < n \<Longrightarrow> rss_entries env sk t url fd n es p s = Inr (p, s)"
  by (cases es) simp_all

text \<open>The \<open>while\<close> loop from index \<open>i\<close> is the recursion over the entries from \<open>i\<close> on.\<close>

lemma rss_loop_entries:
  "tot = length entries \<Longrightarrow>
   rss_loop env sk t url fd entries n tot i p s
   = rss_entries env sk t url fd n (drop i entries) p s"
proof (induction env sk t url fd entries n tot i p s rule: rss_loop.induct)
  case (1 env sk t url fd entries n tot i p s)
  show ?case
  proof (cases "int (length p) < n \<and> i < tot")
    case False
    then show ?thesis
      using 1(2) by (subst rss_loop.simps) (auto simp: rss_entries_full)
  next
    case True
    with 1(2) have lt: "i < length entries" by simp
    then have dr: "drop i entries = entries ! i # drop (Suc i) entries"
      by (simp add: Cons_nth_drop_Suc)
    show ?thesis
    proof (cases "process_entry env sk t url fd (entries ! i) p s")
      case (Inl e)
      with True lt dr show ?thesis by (subst rss_loop.simps) simp
    next
      case (Inr ps)
      obtain p' s' where ps: "ps = (p', s')" by (cases ps)
      have "rss_loop env sk t url fd entries n tot (i + 1) p' s'
            = rss_entries env sk t url fd n (drop (i + 1) entries) p' s'"
        using "1.IH" [OF True _ Inr [unfolded ps] refl 1(2)] lt by simp
      with True lt dr Inr ps show ?thesis by (subst rss_loop.simps) simp
    qed
  qed
qed





lemma published_date_undated:
  "published_parsed entry = None \<Longrightarrow> updated_parsed entry = None \<Longrightarrow>
   published_date env entry = Inr None"
  by (simp add: published_date_def)

lemma process_entry_cases:
  assumes "process_entry env sk t url fd e p s = Inr (p', s')"
  shows "(p' = p \<and> s' = s) \<or> (p' = p \<and> s' = s + 1)
         \<or> (\<exists>item. p' = p @ [item] \<and> s' = s)"
  using assms
  by (auto simp: process_entry_def Let_def split: option.splits if_splits sum.splits)

lemma rss_entries_bounds:
  "rss_entries env sk t url fd n es p s = Inr (p', s') \<Longrightarrow>
   length p' + s' \<le> length p + s + length es
   \<and> (int (length p) \<le> n \<longrightarrow> int (length p') \<le> n)"
proof (induction es arbitrary: p s)
  case Nil
  then show ?case by simp
next
  case (Cons e es)
  show ?case
  proof (cases "int (length p) < n")
    case False
    with Cons.prems show ?thesis by simp
  next
    case True
    with Cons.prems obtain p1 s1 where
      step: "process_entry env sk t url fd e p s = Inr (p1, s1)"
      and rest: "rss_entries env sk t url fd n es p1 s1 = Inr (p', s')"
      by (auto split: sum.splits)
    from process_entry_cases [OF step] have
      b1: "length p1 + s1 \<le> length p + s + 1" and b2: "length p1 \<le> length p + 1"
      by auto
    from Cons.IH [OF rest] have
      i1: "length p' + s' \<le> length p1 + s1 + length es"
      and i2: "int (length p1) \<le> n \<longrightarrow> int (length p') \<le> n" by auto
    from True b2 have "int (length p1) \<le> n" by simp
    with i1 i2 b1 show ?thesis by simp
  qed
qed

lemma process_entry_no_identity:
  assumes "entry_id e = None \<or> entry_id e = Some []"
    and "entry_link e = None \<or> entry_link e = Some []"
  shows "process_entry env sk t url fd e p s = Inr (p, s)"
  using assms by (auto simp: process_entry_def base_id_def)

lemma rss_entries_no_identity:
  assumes "entry_id e = None \<or> entry_id e = Some []"
    and "entry_link e = None \<or> entry_link e = Some []"
  shows "rss_entries env sk t url fd n (xs @ e # ys) p s
         = rss_entries env sk t url fd n (xs @ ys) p s"
proof (induction xs arbitrary: p s)
  case Nil
  show ?case
    by (cases "int (length p) < n")
       (simp_all add: process_entry_no_identity [OF assms] rss_entries_full)
next
  case (Cons x xs)
  then show ?case by (simp split: sum.splits)
qed

lemma build_entry_meta:
  "build_entry env url \<lparr>feed_entries = a, feed_meta = m\<rparr>
   = build_entry env url \<lparr>feed_entries = b, feed_meta = m\<rparr>"
  by (intro ext) (simp add: build_entry_def feed_source_def)

lemma rss_stored_meta:
  "rss_stored env url \<lparr>feed_entries = a, feed_meta = m\<rparr>
   = rss_stored env url \<lparr>feed_entries = b, feed_meta = m\<rparr>"
  by (intro ext) (simp add: rss_stored_def feed_source_def)

lemma process_entry_meta:
  "process_entry env sk t url \<lparr>feed_entries = a, feed_meta = m\<rparr> e p s
   = process_entry env sk t url \<lparr>feed_entries = b, feed_meta = m\<rparr> e p s"
  by (simp only: process_entry_def build_entry_meta [of env url a m b]
      rss_stored_meta [of env url a m b])

lemma rss_entries_meta:
  "rss_entries env sk t url \<lparr>feed_entries = a, feed_meta = m\<rparr> n es p s
   = rss_entries env sk t url \<lparr>feed_entries = b, feed_meta = m\<rparr> n es p s"
proof (induction es arbitrary: p s)
  case Nil
  show ?case by simp
next
  case (Cons e es)
  show ?case
    using Cons.IH process_entry_meta [of env sk t url a m e p s b]
    by (simp split: sum.splits)
qed

lemma process_entry_kept:
  assumes "base_id e = Some b" and "b \<noteq> []"
    and "\<not> skip_article env sk t (normalize_article_id env b)"
    and "published_date env e = Inr published"
    and "entry_title e = Some title"
    and "\<forall>article. add_news_article env article = None"
  shows "\<exists>item. process_entry env sk t url fd e p s = Inr (p @ [item], s)
               \<and> item_article_id item = normalize_article_id env b"
  using assms by (simp add: process_entry_def Let_def build_entry_def)

lemma wechat_loop_counts:
  "wechat_loop env sk t url es p s = Inr (p', s') \<Longrightarrow>
   length p' + s' = length p + s + length es"
proof (induction es arbitrary: p s)
  case Nil
  then show ?case by simp
next
  case (Cons e es)
  then show ?case
    by (auto simp: Let_def split: if_splits option.splits dest!: Cons.IH)
qed

lemma wechat_loop_items:
  assumes "wechat_loop env sk t url es p s = Inr (p', s')"
    and "e' \<in> set p'"
  shows "e' \<in> set p
         \<or> (\<exists>e0\<in>set es. e' = e0\<lparr>w_article_id :=
               Some (wechat_article_id env (wechat_link url e0) (wechat_title e0))\<rparr>)"
  using assms
proof (induction es arbitrary: p s)
  case Nil
  then show ?case by simp
next
  case (Cons e es)
  show ?case
  proof (cases "skip_article env sk t (wechat_article_id env (wechat_link url e) (wechat_title e))")
    case True
    with Cons.prems have "wechat_loop env sk t url es p (s + 1) = Inr (p', s')"
      by (simp add: Let_def)
    from Cons.IH [OF this Cons.prems(2)] show ?thesis by auto
  next
    case False
    with Cons.prems have "wechat_loop env sk t url es
        (p @ [e\<lparr>w_article_id := Some (wechat_article_id env (wechat_link url e) (wechat_title e))\<rparr>]) s
        = Inr (p', s')"
      by (simp add: Let_def split: option.splits)
    from Cons.IH [OF this Cons.prems(2)] show ?thesis by auto
  qed
qed

lemma status_literals: "ustr_of ''fail'' \<noteq> ustr_of ''success''"
  by (simp add: ustr_of_def)

lemma fetch_feed_success:
  assumes "res_status (fetch_feed env self feed_url n t) = ustr_of ''success''"
  shows "fetch_feed_body env self feed_url n t = Inr (fetch_feed env self feed_url n t)"
proof (cases "fetch_feed_body env self feed_url n t")
  case (Inl e)
  with assms show ?thesis by (simp add: fetch_feed_def fail_result_def status_literals)
next
  case (Inr r)
  then show ?thesis by (simp add: fetch_feed_def)
qed

lemma fetch_wechat_success:
  assumes "fetch_wechat env sk t feed_url n = Inr r" and "res_status r = ustr_of ''success''"
  shows "\<exists>p s. wechat_loop env sk t feed_url (w_items (parse_wechat_source env feed_url n)) [] 0
                 = Inr (p, s)
               \<and> res_items r = map WechatItem p
               \<and> res_stats r = Some \<lparr>total_available =
                                        length (w_items (parse_wechat_source env feed_url n)),
                                      processed = length p, skipped = s\<rparr>"
proof (cases "w_status (parse_wechat_source env feed_url n) = ustr_of ''success''")
  case False
  with assms(1) have "res_status r = w_status (parse_wechat_source env feed_url n)"
    by (auto simp: fetch_wechat_def Let_def)
  with False assms(2) show ?thesis by simp
next
  case True
  show ?thesis
  proof (cases "wechat_loop env sk t feed_url (w_items (parse_wechat_source env feed_url n)) [] 0")
    case (Inl e)
    with True assms(1) show ?thesis by (simp add: fetch_wechat_def Let_def)
  next
    case (Inr ps)
    obtain p s where ps: "ps = (p, s)" by (cases ps)
    from True Inr ps assms(1) have
      "r = \<lparr>res_status = ustr_of ''success'', res_items = map WechatItem p, res_error = None,
            res_feed_info = Some
              \<lparr>info_title =
                 (case p of [] \<Rightarrow> unknown_title
                  | first # _ \<Rightarrow>
                      (case w_source first of Some s \<Rightarrow> s | None \<Rightarrow> wechat_default_source)),
               info_description = wechat_description, info_link = feed_url\<rparr>,
            res_stats = Some
              \<lparr>total_available = length (w_items (parse_wechat_source env feed_url n)),
               processed = length p, skipped = s\<rparr>\<rparr>"
      by (simp add: fetch_wechat_def Let_def)
    then have "res_items r = map WechatItem p"
      and "res_stats r = Some
              \<lparr>total_available = length (w_items (parse_wechat_source env feed_url n)),
               processed = length p, skipped = s\<rparr>" by simp_all
    with Inr ps show ?thesis by blast
  qed
qed

lemma fetch_rss_success:
  assumes "fetch_rss env sk t feed_url n = Inr r" and "res_status r = ustr_of ''success''"
  shows "\<exists>fd entries p s. feedparser_parse env feed_url = Some fd
               \<and> feed_entries fd = Some entries
               \<and> rss_entries env sk t feed_url fd n entries [] 0 = Inr (p, s)
               \<and> res_items r = map RssItem p
               \<and> res_stats r = Some \<lparr>total_available = length entries,
                                      processed = length p, skipped = s\<rparr>"
proof (cases "feedparser_parse env feed_url")
  case None
  with assms show ?thesis
    by (simp add: fetch_rss_def rss_result_def fail_result_def) (auto simp: status_literals)
next
  case (Some fd)
  show ?thesis
  proof (cases "feed_entries fd")
    case None
    with Some assms show ?thesis
      by (simp add: fetch_rss_def rss_result_def fail_result_def) (auto simp: status_literals)
  next
    case entries: (Some entries)
    show ?thesis
    proof (cases "entries = []")
      case True
      with Some entries assms show ?thesis
        by (simp add: fetch_rss_def rss_result_def fail_result_def) (auto simp: status_literals)
    next
      case False
      have loop: "rss_loop env sk t feed_url fd entries n (length entries) 0 [] 0
                  = rss_entries env sk t feed_url fd n entries [] 0"
        using rss_loop_entries [of "length entries" entries env sk t feed_url fd n 0 "[]" 0]
        by simp
      show ?thesis
      proof (cases "rss_entries env sk t feed_url fd n entries [] 0")
        case (Inl e)
        with False Some entries assms(1) loop show ?thesis
          by (simp add: fetch_rss_def rss_result_def Let_def)
      next
        case (Inr ps)
        obtain p s where ps: "ps = (p, s)" by (cases ps)
        from False Some entries assms(1) loop Inr ps have
          "r = \<lparr>res_status = ustr_of ''success'', res_items = map RssItem p, res_error = None,
                res_feed_info = Some (rss_feed_info fd feed_url),
                res_stats = Some \<lparr>total_available = length entries,
                                   processed = length p, skipped = s\<rparr>\<rparr>"
          by (simp add: fetch_rss_def rss_result_def Let_def)
        then have "res_items r = map RssItem p"
          and "res_stats r = Some \<lparr>total_available = length entries,
                                   processed = length p, skipped = s\<rparr>" by simp_all
        with Some entries Inr ps show ?thesis by blast
      qed
    qed
  qed
qed
lemma rss_result_entries:
  "entries \<noteq> [] \<Longrightarrow>
   rss_result env sk t url n (Some \<lparr>feed_entries = Some entries, feed_meta = m\<rparr>)
   = (case rss_entries env sk t url \<lparr>feed_entries = Some entries, feed_meta = m\<rparr> n entries [] 0 of
        Inl e \<Rightarrow> Inl e
      | Inr (p, s) \<Rightarrow>
          Inr \<lparr>res_status = ustr_of ''success'', res_items = map RssItem p, res_error = None,
               res_feed_info =
                 Some (rss_feed_info \<lparr>feed_entries = Some entries, feed_meta = m\<rparr> url),
               res_stats = Some \<lparr>total_available = length entries, processed = length p,
                                  skipped = s\<rparr>\<rparr>)"
  by (simp add: rss_result_def Let_def rss_loop_entries)

section \<open>Identifiers of chat-source items\<close>

text \<open>
  C1: every item that the chat-source branch returns is an item of the chat source with
  its \<open>article_id\<close> set, and for an item with link \<open>L\<close> and title \<open>T\<close> the id is
  \<open>"wechat_"\<close> followed by the digest of \<open>canonicalize(L) + "::" + T\<close>: a function of
  \<open>L\<close> and \<open>T\<close> alone, hence the same on every run. The prefix is \<open>wechat_\<close>, not
  \<open>chat_\<close>.
\<close>

theorem chat_article_id:
  assumes "is_wechat_source feed_url"
    and "res_status (fetch_feed env self feed_url n t) = ustr_of ''success''"
    and "it \<in> set (res_items (fetch_feed env self feed_url n t))"
  shows "\<exists>e0\<in>set (w_items (parse_wechat_source env feed_url n)).
           it = WechatItem (e0\<lparr>w_article_id :=
                  Some (wechat_article_id env (wechat_link feed_url e0) (wechat_title e0))\<rparr>)
           \<and> (\<forall>L T. w_link e0 = Some L \<and> w_title e0 = Some T \<longrightarrow>
                item_id it = Some (ustr_of ''wechat_''
                  @ md5_hexdigest env (normalize_article_id env L @ ustr_of ''::'' @ T)))"
proof -
  let ?r = "fetch_feed env self feed_url n t"
  let ?sk = "skip_processed (refresh_settings env self)"
  from fetch_feed_success [OF assms(2)] assms(1)
  have "fetch_wechat env ?sk t feed_url n = Inr ?r"
    by (simp add: fetch_feed_body_def Let_def)
  from fetch_wechat_success [OF this assms(2)] obtain p s where
    loop: "wechat_loop env ?sk t feed_url (w_items (parse_wechat_source env feed_url n)) [] 0
           = Inr (p, s)"
    and items: "res_items ?r = map WechatItem p" by blast
  from assms(3) items obtain e' where e': "e' \<in> set p" and it: "it = WechatItem e'" by auto
  from wechat_loop_items [OF loop e'] obtain e0 where
    e0: "e0 \<in> set (w_items (parse_wechat_source env feed_url n))"
    and eq: "e' = e0\<lparr>w_article_id :=
               Some (wechat_article_id env (wechat_link feed_url e0) (wechat_title e0))\<rparr>"
    by auto
  have "\<forall>L T. w_link e0 = Some L \<and> w_title e0 = Some T \<longrightarrow>
          item_id it = Some (ustr_of ''wechat_''
            @ md5_hexdigest env (normalize_article_id env L @ ustr_of ''::'' @ T))"
    using it eq
    by (simp add: item_id_def wechat_article_id_def wechat_link_def wechat_title_def Let_def)
  with e0 it eq show ?thesis by blast
qed

lemmas evaluate_chat =
  fetch_feed_def fetch_feed_body_def refresh_settings_def example_env_def is_wechat_source_def
  fetch_wechat_def Let_def skip_article_def dedup_gate_def wechat_stored_def
  wechat_article_id_def wechat_link_def wechat_title_def example_chat_item_def item_id_def

theorem chat_article_id_witness:
  "map item_id
     (res_items (fetch_feed
        (example_env [] [example_chat_item (ustr_of ''https://mp.weixin.qq.com/s/1'')
                           (ustr_of ''Title'')])
        \<lparr>skip_processed = False\<rparr> (ustr_of ''https://mp.weixin.qq.com/feed'') 10 None))
   = [Some (ustr_of ''wechat_'' @ rev (ustr_of ''https://mp.weixin.qq.com/s/1::Title''))]"
proof -
  let ?L = "ustr_of ''https://mp.weixin.qq.com/s/1''"
  let ?T = "ustr_of ''Title''"
  let ?env = "example_env [] [example_chat_item ?L ?T]"
  let ?url = "ustr_of ''https://mp.weixin.qq.com/feed''"
  let ?r = "fetch_feed ?env \<lparr>skip_processed = False\<rparr> ?url 10 None"
  have w: "is_wechat_source ?url" by (simp add: is_wechat_source_def ustr_of_def)
  have st: "res_status ?r = ustr_of ''success''"
    by (simp add: evaluate_chat) (simp add: ustr_of_def)
  have items: "\<exists>it. res_items ?r = [it]"
    by (simp add: evaluate_chat) (simp add: ustr_of_def)
  then obtain it where single: "res_items ?r = [it]" by blast
  then have mem: "it \<in> set (res_items ?r)" by simp
  have src: "w_items (parse_wechat_source ?env ?url 10) = [example_chat_item ?L ?T]"
    by (simp add: example_env_def)
  from chat_article_id [OF w st mem] src
  have "item_id it = Some (ustr_of ''wechat_''
          @ md5_hexdigest ?env (normalize_article_id ?env ?L @ ustr_of ''::'' @ ?T))"
    by (auto simp: example_chat_item_def)
  then have "item_id it = Some (ustr_of ''wechat_'' @ rev (ustr_of ''https://mp.weixin.qq.com/s/1::Title''))"
    by (simp add: example_env_def ustr_of_def)
  with single show ?thesis by simp
qed

theorem chat_prefix_is_not_chat:
  "map item_id
     (res_items (fetch_feed
        (example_env [] [example_chat_item (ustr_of ''https://mp.weixin.qq.com/s/1'')
                           (ustr_of ''Title'')])
        \<lparr>skip_processed = False\<rparr> (ustr_of ''https://mp.weixin.qq.com/feed'') 10 None))
   \<noteq> [Some (ustr_of ''chat_''
        @ md5_hexdigest
            (example_env [] [example_chat_item (ustr_of ''https://mp.weixin.qq.com/s/1'')
                               (ustr_of ''Title'')])
            (normalize_article_id
               (example_env [] [example_chat_item (ustr_of ''https://mp.weixin.qq.com/s/1'')
                                  (ustr_of ''Title'')])
               (ustr_of ''https://mp.weixin.qq.com/s/1'')
             @ ustr_of ''::'' @ ustr_of ''Title''))]"
  by (simp add: evaluate_chat) (simp add: ustr_of_def)

section \<open>Statistics of a successful fetch\<close>

text \<open>
  C2: every successful result has stats with \<open>processed = len(items)\<close> and
  \<open>processed + skipped \<le> total_available\<close>. In the generic branch
  \<open>processed \<le> items_count\<close> for every \<open>items_count \<ge> 0\<close> (below 0 the loop keeps
  nothing and \<open>processed\<close> is 0). The chat-source branch keeps
  every item the chat source returns, so there \<open>processed \<le> items_count\<close> holds when
  the chat source returned at most \<open>items_count\<close> items.
\<close>

theorem fetch_stats_invariant:
  assumes "res_status (fetch_feed env self feed_url items_count task_id) = ustr_of ''success''"
  shows "\<exists>st. res_stats (fetch_feed env self feed_url items_count task_id) = Some st
           \<and> processed st = length (res_items (fetch_feed env self feed_url items_count task_id))
           \<and> processed st + skipped st \<le> total_available st
           \<and> (\<not> is_wechat_source feed_url \<and> 0 \<le> items_count
                \<longrightarrow> int (processed st) \<le> items_count)
           \<and> (is_wechat_source feed_url
                \<and> int (length (w_items (parse_wechat_source env feed_url items_count)))
                    \<le> items_count
                \<longrightarrow> int (processed st) \<le> items_count)"
proof -
  let ?r = "fetch_feed env self feed_url items_count task_id"
  let ?sk = "skip_processed (refresh_settings env self)"
  note body = fetch_feed_success [OF assms]
  show ?thesis
  proof (cases "is_wechat_source feed_url")
    case True
    with body have "fetch_wechat env ?sk task_id feed_url items_count = Inr ?r"
      by (simp add: fetch_feed_body_def Let_def)
    from fetch_wechat_success [OF this assms] obtain p s where
      loop: "wechat_loop env ?sk task_id feed_url
               (w_items (parse_wechat_source env feed_url items_count)) [] 0 = Inr (p, s)"
      and items: "res_items ?r = map WechatItem p"
      and stats: "res_stats ?r = Some \<lparr>total_available =
                     length (w_items (parse_wechat_source env feed_url items_count)),
                   processed = length p, skipped = s\<rparr>" by blast
    from wechat_loop_counts [OF loop]
    have "length p + s = length (w_items (parse_wechat_source env feed_url items_count))"
      by simp
    with True items stats show ?thesis by simp
  next
    case False
    with body have "fetch_rss env ?sk task_id feed_url items_count = Inr ?r"
      by (simp add: fetch_feed_body_def Let_def)
    from fetch_rss_success [OF this assms] obtain fd entries p s where
      loop: "rss_entries env ?sk task_id feed_url fd items_count entries [] 0 = Inr (p, s)"
      and items: "res_items ?r = map RssItem p"
      and stats: "res_stats ?r = Some \<lparr>total_available = length entries,
                   processed = length p, skipped = s\<rparr>" by blast
    from rss_entries_bounds [OF loop]
    have "length p + s \<le> length entries" and "0 \<le> items_count \<longrightarrow> int (length p) \<le> items_count"
      by simp_all
    with False items stats show ?thesis by simp
  qed
qed

lemmas evaluate_rss =
  fetch_feed_def fetch_feed_body_def refresh_settings_def is_wechat_source_def fetch_rss_def
  rss_result_def rss_loop_entries Let_def example_env_def example_entry_def process_entry_def
  base_id_def skip_article_def dedup_gate_def published_date_def ustr_of_def

theorem fetch_stats_invariant_witness:
  "res_status (fetch_feed
      (example_env [example_entry (Some (ustr_of ''a'')) None (Some (ustr_of ''A'')),
                    example_entry (Some (ustr_of ''sent'')) None (Some (ustr_of ''B'')),
                    example_entry None None (Some (ustr_of ''C'')),
                    example_entry (Some (ustr_of ''d'')) None (Some (ustr_of ''D''))] [])
      \<lparr>skip_processed = False\<rparr> (ustr_of ''https://example.org/feed.xml'') 2
      (Some (ustr_of ''task''))) = ustr_of ''success''
   \<and> res_stats (fetch_feed
      (example_env [example_entry (Some (ustr_of ''a'')) None (Some (ustr_of ''A'')),
                    example_entry (Some (ustr_of ''sent'')) None (Some (ustr_of ''B'')),
                    example_entry None None (Some (ustr_of ''C'')),
                    example_entry (Some (ustr_of ''d'')) None (Some (ustr_of ''D''))] [])
      \<lparr>skip_processed = False\<rparr> (ustr_of ''https://example.org/feed.xml'') 2
      (Some (ustr_of ''task'')))
     = Some \<lparr>total_available = 4, processed = 2, skipped = 1\<rparr>
   \<and> length (res_items (fetch_feed
      (example_env [example_entry (Some (ustr_of ''a'')) None (Some (ustr_of ''A'')),
                    example_entry (Some (ustr_of ''sent'')) None (Some (ustr_of ''B'')),
                    example_entry None None (Some (ustr_of ''C'')),
                    example_entry (Some (ustr_of ''d'')) None (Some (ustr_of ''D''))] [])
      \<lparr>skip_processed = False\<rparr> (ustr_of ''https://example.org/feed.xml'') 2
      (Some (ustr_of ''task'')))) = 2"
proof -
  let ?env = "example_env [example_entry (Some (ustr_of ''a'')) None (Some (ustr_of ''A'')),
                    example_entry (Some (ustr_of ''sent'')) None (Some (ustr_of ''B'')),
                    example_entry None None (Some (ustr_of ''C'')),
                    example_entry (Some (ustr_of ''d'')) None (Some (ustr_of ''D''))] []"
  let ?url = "ustr_of ''https://example.org/feed.xml''"
  let ?r = "fetch_feed ?env \<lparr>skip_processed = False\<rparr> ?url 2 (Some (ustr_of ''task''))"
  have st: "res_status ?r = ustr_of ''success''"
    by (simp add: evaluate_rss)
  have stats: "res_stats ?r = Some \<lparr>total_available = 4, processed = 2, skipped = 1\<rparr>"
    by (simp add: evaluate_rss)
  from fetch_stats_invariant [OF st] stats have "length (res_items ?r) = 2" by auto
  with st stats show ?thesis by simp
qed

theorem chat_branch_exceeds_items_count:
  "res_status (fetch_feed
      (example_env [] [example_chat_item (ustr_of ''https://mp.weixin.qq.com/s/1'') (ustr_of ''One''),
                       example_chat_item (ustr_of ''https://mp.weixin.qq.com/s/2'') (ustr_of ''Two'')])
      \<lparr>skip_processed = False\<rparr> (ustr_of ''https://mp.weixin.qq.com/feed'') 1 None)
     = ustr_of ''success''
   \<and> map_option processed (res_stats (fetch_feed
      (example_env [] [example_chat_item (ustr_of ''https://mp.weixin.qq.com/s/1'') (ustr_of ''One''),
                       example_chat_item (ustr_of ''https://mp.weixin.qq.com/s/2'') (ustr_of ''Two'')])
      \<lparr>skip_processed = False\<rparr> (ustr_of ''https://mp.weixin.qq.com/feed'') 1 None)) = Some 2
   \<and> \<not> int 2 \<le> 1"
  by (simp add: evaluate_chat) (simp add: ustr_of_def)

section \<open>Entries without an identifier\<close>

text \<open>
  C6: a raw entry that has neither an \<open>id\<close> nor a \<open>link\<close> (missing or empty) leaves
  the collected items and the skipped counter as they are, and the loop goes on with
  the next entry: the loop, and with it the status, the items, \<open>processed\<close> and
  \<open>skipped\<close> of the result, are those of the feed without the entry.
\<close>

theorem missing_identity_excluded:
  assumes "entry_id e = None \<or> entry_id e = Some []"
    and "entry_link e = None \<or> entry_link e = Some []"
  shows "process_entry env sk t url fd e p s = Inr (p, s)
     \<and> rss_loop env sk t url fd (xs @ e # ys) n (length (xs @ e # ys)) 0 [] 0
       = rss_loop env sk t url fd (xs @ ys) n (length (xs @ ys)) 0 [] 0
     \<and> (xs @ ys \<noteq> [] \<longrightarrow>
          map_sum id (\<lambda>r. (res_status r, res_items r, map_option processed (res_stats r),
                           map_option skipped (res_stats r)))
            (rss_result env sk t url n (Some \<lparr>feed_entries = Some (xs @ e # ys), feed_meta = m\<rparr>))
          = map_sum id (\<lambda>r. (res_status r, res_items r, map_option processed (res_stats r),
                             map_option skipped (res_stats r)))
              (rss_result env sk t url n (Some \<lparr>feed_entries = Some (xs @ ys), feed_meta = m\<rparr>)))"
proof -
  have step: "process_entry env sk t url fd e p s = Inr (p, s)"
    using assms by (rule process_entry_no_identity)
  have loop: "rss_loop env sk t url fd' (xs @ e # ys) n (length (xs @ e # ys)) 0 [] 0
              = rss_entries env sk t url fd' n (xs @ ys) [] 0" for fd'
    using rss_loop_entries [of "length (xs @ e # ys)" "xs @ e # ys" env sk t url fd' n 0 "[]" 0]
      rss_entries_no_identity [OF assms, of env sk t url fd' n xs ys "[]" 0]
    by simp
  have loop': "rss_loop env sk t url fd' (xs @ ys) n (length (xs @ ys)) 0 [] 0
               = rss_entries env sk t url fd' n (xs @ ys) [] 0" for fd'
    using rss_loop_entries [of "length (xs @ ys)" "xs @ ys" env sk t url fd' n 0 "[]" 0]
    by simp
  have same: "rss_entries env sk t url \<lparr>feed_entries = Some (xs @ e # ys), feed_meta = m\<rparr> n
                (xs @ e # ys) [] 0
              = rss_entries env sk t url \<lparr>feed_entries = Some (xs @ ys), feed_meta = m\<rparr> n
                (xs @ ys) [] 0"
    using rss_entries_no_identity [OF assms, of env sk t url
        "\<lparr>feed_entries = Some (xs @ e # ys), feed_meta = m\<rparr>" n xs ys "[]" 0]
      rss_entries_meta [of env sk t url "Some (xs @ e # ys)" m n "xs @ ys" "[]" 0 "Some (xs @ ys)"]
    by simp
  have result: "map_sum id (\<lambda>r. (res_status r, res_items r, map_option processed (res_stats r),
                           map_option skipped (res_stats r)))
            (rss_result env sk t url n (Some \<lparr>feed_entries = Some (xs @ e # ys), feed_meta = m\<rparr>))
          = map_sum id (\<lambda>r. (res_status r, res_items r, map_option processed (res_stats r),
                             map_option skipped (res_stats r)))
              (rss_result env sk t url n (Some \<lparr>feed_entries = Some (xs @ ys), feed_meta = m\<rparr>))"
    if ne: "xs @ ys \<noteq> []"
  proof -
    have ne': "xs @ e # ys \<noteq> []" by simp
    show ?thesis
      unfolding rss_result_entries [OF ne] rss_result_entries [OF ne'] same
      by (cases "rss_entries env sk t url \<lparr>feed_entries = Some (xs @ ys), feed_meta = m\<rparr> n
                  (xs @ ys) [] 0")
         (auto split: prod.splits)
  qed
  from step loop [of fd] loop' [of fd] result show ?thesis by (simp del: length_append)
qed

theorem missing_identity_excluded_witness:
  "res_stats (fetch_feed
      (example_env [example_entry None (Some []) (Some (ustr_of ''C'')),
                    example_entry (Some (ustr_of ''d'')) None (Some (ustr_of ''D''))] [])
      \<lparr>skip_processed = False\<rparr> (ustr_of ''https://example.org/feed.xml'') 2
      (Some (ustr_of ''task'')))
     = Some \<lparr>total_available = 2, processed = 1, skipped = 0\<rparr>
   \<and> process_entry (example_env [] []) True (Some (ustr_of ''task''))
        (ustr_of ''https://example.org/feed.xml'') \<lparr>feed_entries = None, feed_meta = None\<rparr>
        (example_entry None (Some []) (Some (ustr_of ''C''))) [] 0 = Inr ([], 0)"
proof -
  let ?e = "example_entry None (Some []) (Some (ustr_of ''C''))"
  have a: "entry_id ?e = None \<or> entry_id ?e = Some []"
    and b: "entry_link ?e = None \<or> entry_link ?e = Some []"
    by (simp_all add: example_entry_def)
  from missing_identity_excluded [OF a b]
  have "process_entry (example_env [] []) True (Some (ustr_of ''task''))
        (ustr_of ''https://example.org/feed.xml'') \<lparr>feed_entries = None, feed_meta = None\<rparr>
        ?e [] 0 = Inr ([], 0)" by blast
  moreover have "res_stats (fetch_feed
      (example_env [?e, example_entry (Some (ustr_of ''d'')) None (Some (ustr_of ''D''))] [])
      \<lparr>skip_processed = False\<rparr> (ustr_of ''https://example.org/feed.xml'') 2
      (Some (ustr_of ''task'')))
     = Some \<lparr>total_available = 2, processed = 1, skipped = 0\<rparr>"
    by (simp add: evaluate_rss)
  ultimately show ?thesis by simp
qed

section \<open>Faults\<close>















section \<open>No deduplication within a run\<close>

text \<open>
  C10: the gate consults only the task history of the store, never the articles
  collected in the current call. A feed of two entries whose identifiers normalize to
  the same \<open>article_id\<close>, which the gate does not suppress and whose dates (if any)
  convert, yields both entries in \<open>items\<close>, both with that id, and
  \<open>processed = 2\<close>.
\<close>

theorem no_within_run_dedup:
  assumes "\<not> is_wechat_source feed_url"
    and "feedparser_parse env feed_url = Some fd"
    and "feed_entries fd = Some [e1, e2]"
    and "base_id e1 = Some b1" and "b1 \<noteq> []"
    and "base_id e2 = Some b2" and "b2 \<noteq> []"
    and "normalize_article_id env b1 = a" and "normalize_article_id env b2 = a"
    and "\<not> skip_article env (skip_processed (refresh_settings env self)) task_id a"
    and "published_date env e1 = Inr d1" and "published_date env e2 = Inr d2"
    and "entry_title e1 = Some t1" and "entry_title e2 = Some t2"
    and "\<forall>article. add_news_article env article = None"
    and "2 \<le> items_count"
  shows "res_status (fetch_feed env self feed_url items_count task_id) = ustr_of ''success''
     \<and> map item_id (res_items (fetch_feed env self feed_url items_count task_id))
         = [Some a, Some a]
     \<and> res_stats (fetch_feed env self feed_url items_count task_id)
         = Some \<lparr>total_available = 2, processed = 2, skipped = 0\<rparr>"
proof -
  let ?sk = "skip_processed (refresh_settings env self)"
  from process_entry_kept [of e1 b1 env ?sk task_id d1 t1 feed_url fd "[]" 0] assms
  obtain i1 where p1: "process_entry env ?sk task_id feed_url fd e1 [] 0 = Inr ([i1], 0)"
    and a1: "item_article_id i1 = a" by auto
  from process_entry_kept [of e2 b2 env ?sk task_id d2 t2 feed_url fd "[i1]" 0] assms
  obtain i2 where p2: "process_entry env ?sk task_id feed_url fd e2 [i1] 0 = Inr ([i1, i2], 0)"
    and a2: "item_article_id i2 = a" by auto
  from p1 p2 assms(16)
  have "rss_entries env ?sk task_id feed_url fd items_count [e1, e2] [] 0 = Inr ([i1, i2], 0)"
    by simp
  with assms(1-3) have
    "fetch_feed env self feed_url items_count task_id
     = \<lparr>res_status = ustr_of ''success'', res_items = [RssItem i1, RssItem i2],
        res_error = None, res_feed_info = Some (rss_feed_info fd feed_url),
        res_stats = Some \<lparr>total_available = 2, processed = 2, skipped = 0\<rparr>\<rparr>"
    by (simp add: fetch_feed_def fetch_feed_body_def fetch_rss_def rss_result_def Let_def
        rss_loop_entries)
  with a1 a2 show ?thesis by (simp add: item_id_def)
qed

theorem no_within_run_dedup_witness:
  "map item_id (res_items (fetch_feed
      (example_env [example_entry (Some (ustr_of ''urn:1'')) None (Some (ustr_of ''A'')),
                    example_entry None (Some (ustr_of ''urn:1'')) (Some (ustr_of ''B''))] [])
      \<lparr>skip_processed = False\<rparr> (ustr_of ''https://example.org/feed.xml'') 10
      (Some (ustr_of ''task''))))
     = [Some (ustr_of ''urn:1''), Some (ustr_of ''urn:1'')]
   \<and> res_stats (fetch_feed
      (example_env [example_entry (Some (ustr_of ''urn:1'')) None (Some (ustr_of ''A'')),
                    example_entry None (Some (ustr_of ''urn:1'')) (Some (ustr_of ''B''))] [])
      \<lparr>skip_processed = False\<rparr> (ustr_of ''https://example.org/feed.xml'') 10
      (Some (ustr_of ''task'')))
     = Some \<lparr>total_available = 2, processed = 2, skipped = 0\<rparr>"
proof -
  let ?e1 = "example_entry (Some (ustr_of ''urn:1'')) None (Some (ustr_of ''A''))"
  let ?e2 = "example_entry None (Some (ustr_of ''urn:1'')) (Some (ustr_of ''B''))"
  let ?env = "example_env [?e1, ?e2] []"
  let ?url = "ustr_of ''https://example.org/feed.xml''"
  have nw: "\<not> is_wechat_source ?url" by (simp add: is_wechat_source_def ustr_of_def)
  have parse: "feedparser_parse ?env ?url = Some \<lparr>feed_entries = Some [?e1, ?e2], feed_meta = None\<rparr>"
    by (simp add: example_env_def)
  have ents: "feed_entries \<lparr>feed_entries = Some [?e1, ?e2], feed_meta = None\<rparr> = Some [?e1, ?e2]"
    by simp
  have b1: "base_id ?e1 = Some (ustr_of ''urn:1'')" and b2: "base_id ?e2 = Some (ustr_of ''urn:1'')"
    by (simp_all add: base_id_def example_entry_def ustr_of_def)
  have ne: "ustr_of ''urn:1'' \<noteq> []" by (simp add: ustr_of_def)
  have norm: "normalize_article_id ?env (ustr_of ''urn:1'') = ustr_of ''urn:1''"
    by (simp add: example_env_def)
  have gate: "\<not> skip_article ?env (skip_processed (refresh_settings ?env \<lparr>skip_processed = False\<rparr>))
                 (Some (ustr_of ''task'')) (ustr_of ''urn:1'')"
    by (simp add: skip_article_def dedup_gate_def example_env_def refresh_settings_def ustr_of_def)
  have t1: "entry_title ?e1 = Some (ustr_of ''A'')" and t2: "entry_title ?e2 = Some (ustr_of ''B'')"
    by (simp_all add: example_entry_def)
  have store: "\<forall>article. add_news_article ?env article = None"
    by (simp add: example_env_def)
  have d1: "published_date ?env ?e1 = Inr None" and d2: "published_date ?env ?e2 = Inr None"
    by (simp_all add: published_date_undated example_entry_def)
  from no_within_run_dedup [OF nw parse ents b1 ne b2 ne norm norm gate d1 d2 t1 t2 store, of 10]
  show ?thesis by simp
qed

end
